theory Spec2Isabelle
  imports Main "HOL-Library.Sublist"
begin

section \<open>Class lists\<close>

text \<open>
  An element's \<^verbatim>\<open>className\<close> is kept as the list of its class tokens.
  \<^verbatim>\<open>classList.add\<close> appends a token that is not there yet,
  \<^verbatim>\<open>classList.remove\<close> deletes every occurrence of it.
\<close>

type_synonym classList = "string list"

definition classList_contains :: "classList \<Rightarrow> string \<Rightarrow> bool" where
  "classList_contains cl c = (c \<in> set cl)"

definition classList_add :: "classList \<Rightarrow> string \<Rightarrow> classList" where
  "classList_add cl c = (if c \<in> set cl then cl else cl @ [c])"

definition classList_remove :: "classList \<Rightarrow> string \<Rightarrow> classList" where
  "classList_remove cl c = removeAll c cl"

section \<open>Password strength (enhanced-validation-part2.js)\<close>

text \<open>
  A JavaScript string is a sequence of UTF-16 code units, and \<^verbatim>\<open>password.length\<close>
  counts them. The regular expressions of \<^verbatim>\<open>checkPasswordStrength\<close> carry no flag, so
  they test single code units. A code unit is a natural number here; a literal of
  8-bit characters is turned into its code units by \<open>utf16\<close>.
\<close>

type_synonym code_unit = nat

definition utf16 :: "string \<Rightarrow> code_unit list" where
  "utf16 s = map of_char s"

text \<open>The character classes \<^verbatim>\<open>[a-z]\<close>, \<^verbatim>\<open>[A-Z]\<close>, \<^verbatim>\<open>\d\<close>, \<^verbatim>\<open>[a-zA-Z]\<close>,
  \<^verbatim>\<open>[a-zA-Z0-9]\<close> and \<^verbatim>\<open>[^a-zA-Z0-9]\<close>.\<close>

definition is_lower :: "code_unit \<Rightarrow> bool" where
  "is_lower u = (97 \<le> u \<and> u \<le> 122)"

definition is_upper :: "code_unit \<Rightarrow> bool" where
  "is_upper u = (65 \<le> u \<and> u \<le> 90)"

definition is_digit :: "code_unit \<Rightarrow> bool" where
  "is_digit u = (48 \<le> u \<and> u \<le> 57)"

definition is_letter :: "code_unit \<Rightarrow> bool" where
  "is_letter u = (is_lower u \<or> is_upper u)"

definition is_alnum :: "code_unit \<Rightarrow> bool" where
  "is_alnum u = (is_lower u \<or> is_upper u \<or> is_digit u)"

definition is_special :: "code_unit \<Rightarrow> bool" where
  "is_special u = (\<not> is_alnum u)"

text \<open>The dot of a regular expression without the \<^verbatim>\<open>s\<close> flag matches every code unit
  but the line terminators LF, CR, U+2028 and U+2029.\<close>

definition is_line_terminator :: "code_unit \<Rightarrow> bool" where
  "is_line_terminator u = (u = 10 \<or> u = 13 \<or> u = 8232 \<or> u = 8233)"

text \<open>\<^verbatim>\<open>/[P]/.test(s)\<close>: some code unit of \<open>s\<close> is in the class.\<close>

definition test_class :: "(code_unit \<Rightarrow> bool) \<Rightarrow> code_unit list \<Rightarrow> bool" where
  "test_class P s = list_ex P s"

text \<open>\<open>dot_star_then Q s\<close>: \<^verbatim>\<open>.*[Q]\<close> matches a prefix of \<open>s\<close>.\<close>

fun dot_star_then :: "(code_unit \<Rightarrow> bool) \<Rightarrow> code_unit list \<Rightarrow> bool" where
  "dot_star_then Q [] = False"
| "dot_star_then Q (u # us) = (Q u \<or> (\<not> is_line_terminator u \<and> dot_star_then Q us))"

text \<open>\<^verbatim>\<open>/[P].*[Q]/.test(s)\<close>: the pattern matches somewhere in \<open>s\<close>.\<close>

fun test_seq :: "(code_unit \<Rightarrow> bool) \<Rightarrow> (code_unit \<Rightarrow> bool) \<Rightarrow> code_unit list \<Rightarrow> bool" where
  "test_seq P Q [] = False"
| "test_seq P Q (u # us) = ((P u \<and> dot_star_then Q us) \<or> test_seq P Q us)"

text \<open>\<^verbatim>\<open>/[P].*[Q]|[Q].*[P]/.test(s)\<close>.\<close>

definition test_either_order :: "(code_unit \<Rightarrow> bool) \<Rightarrow> (code_unit \<Rightarrow> bool) \<Rightarrow> code_unit list \<Rightarrow> bool" where
  "test_either_order P Q s = (test_seq P Q s \<or> test_seq Q P s)"

text \<open>One \<^verbatim>\<open>if (cond) score += k;\<close> of the source.\<close>

definition add_if :: "bool \<Rightarrow> int \<Rightarrow> int \<Rightarrow> int" where
  "add_if c k score = (if c then score + k else score)"

definition checkPasswordStrength :: "code_unit list \<Rightarrow> int" where
  "checkPasswordStrength password =
    (let score = 0;
         score = add_if (length password \<ge> 8) 25 score;
         score = add_if (length password \<ge> 12) 15 score;
         score = add_if (test_class is_lower password) 10 score;
         score = add_if (test_class is_upper password) 10 score;
         score = add_if (test_class is_digit password) 10 score;
         score = add_if (test_class is_special password) 15 score;
         score = add_if (test_either_order is_lower is_upper password) 5 score;
         score = add_if (test_either_order is_digit is_letter password) 5 score;
         score = add_if (test_either_order is_special is_alnum password) 5 score
     in min score 100)"

text \<open>
  The strength meter that \<^verbatim>\<open>enhancePasswordFields\<close> puts after a password field: the
  container, the progress bar inside it (its width in percent and its
  \<^verbatim>\<open>aria-valuenow\<close>) and the text beside it.
\<close>

record strength_meter =
  container_classes :: classList
  indicator_classes :: classList
  indicator_width :: int
  indicator_valuenow :: int
  text_content :: string
  text_classes :: classList

definition new_strength_meter :: strength_meter where
  "new_strength_meter =
    \<lparr>container_classes = [''password-strength-meter'', ''mt-2'', ''d-none''],
     indicator_classes = [''progress-bar''],
     indicator_width = 0,
     indicator_valuenow = 0,
     text_content = '''',
     text_classes = [''text-muted'']\<rparr>"

definition updatePasswordStrengthIndicator :: "strength_meter \<Rightarrow> int \<Rightarrow> strength_meter" where
  "updatePasswordStrengthIndicator m strength =
    (let m = m\<lparr>indicator_width := strength, indicator_valuenow := strength\<rparr>
     in if strength < 30 then
          m\<lparr>indicator_classes := [''progress-bar'', ''bg-danger''],
            text_content := ''Very Weak'', text_classes := [''text-danger'']\<rparr>
        else if strength < 60 then
          m\<lparr>indicator_classes := [''progress-bar'', ''bg-warning''],
            text_content := ''Weak'', text_classes := [''text-warning'']\<rparr>
        else if strength < 80 then
          m\<lparr>indicator_classes := [''progress-bar'', ''bg-info''],
            text_content := ''Fair'', text_classes := [''text-info'']\<rparr>
        else
          m\<lparr>indicator_classes := [''progress-bar'', ''bg-success''],
            text_content := ''Strong'', text_classes := [''text-success'']\<rparr>)"

text \<open>The \<^verbatim>\<open>input\<close> listener of a password field; \<open>v\<close> is the field's value. A string
  is truthy when it is not empty.\<close>

definition password_input :: "code_unit list \<Rightarrow> strength_meter \<Rightarrow> strength_meter" where
  "password_input v m =
    (if v \<noteq> [] then
       updatePasswordStrengthIndicator
         (m\<lparr>container_classes := classList_remove (container_classes m) ''d-none''\<rparr>)
         (checkPasswordStrength v)
     else m\<lparr>container_classes := classList_add (container_classes m) ''d-none''\<rparr>)"

section \<open>The page (enhanced-validation.js)\<close>

text \<open>
  The part of the document the batch operations read and write. A checkbox carries the
  change listeners the script has attached to it; a table cell carries its checkboxes in
  document order and the rest of its content as text; a row carries its
  \<^verbatim>\<open>data-id\<close> attribute; a table is its class list, the rows of its \<^verbatim>\<open>thead\<close> and the
  rows of its \<^verbatim>\<open>tbody\<close>. Tables are not nested, and every element of class
  \<^verbatim>\<open>select-row\<close> is a checkbox in a cell of a table row.
\<close>

datatype listener = SelectAllChange | SelectRowChange

record checkbox =
  cb_classes :: classList
  cb_aria_label :: string
  cb_checked :: bool
  cb_indeterminate :: bool
  cb_listeners :: "listener list"

datatype tag = TH | TD

record cell =
  cell_tag :: tag
  cell_classes :: classList
  cell_width :: string
  cell_boxes :: "checkbox list"
  cell_text :: string

record row =
  data_id :: "string option"
  row_cells :: "cell list"

record table =
  table_classes :: classList
  thead :: "row list"
  tbody :: "row list"

text \<open>One entry of the \<^verbatim>\<open>actions\<close> array of \<^verbatim>\<open>setupBatchActionButtons\<close>.\<close>

record action =
  action_text :: string
  action_icon :: string
  action_key :: string
  action_class :: "string option"

text \<open>
  An element of class \<^verbatim>\<open>batch-actions\<close>: its class list, the number that its first
  \<^verbatim>\<open>.selected-count\<close> descendant shows, and the entries of its menu. The element that
  the script injects has such a badge; an element of that class that comes with the page
  need not, and then \<open>selected_count\<close> is \<open>None\<close>. An action container
  (\<^verbatim>\<open>.card-body .d-flex.flex-wrap.gap-2\<close>) is the list of the
  \<^verbatim>\<open>.batch-actions\<close> elements inside it, in document order. A
  \<^verbatim>\<open>.batch-actions\<close> element outside every action container is a non-empty entry of
  its own in the list of containers: the script never injects into a non-empty entry and
  treats the elements of all entries alike.
\<close>

record batch_actions =
  ba_classes :: classList
  selected_count :: "nat option"
  ba_menu :: "action list"

type_synonym container = "batch_actions list"

text \<open>The exception of a property access on \<^verbatim>\<open>null\<close>. A function that can throw
  returns the exception, if any, together with the page as the throw left it.\<close>

datatype js_error = TypeError

text \<open>\<open>csrf_token\<close> is the value of the first element named
  \<^verbatim>\<open>csrfmiddlewaretoken\<close>, when the page has one.\<close>

record page =
  pathname :: string
  csrf_token :: "string option"
  tables :: "table list"
  containers :: "container list"

subsection \<open>Reaching a checkbox\<close>

datatype table_part = Head | Body

text \<open>A checkbox of a table: the part of the table, the row, the cell in the row, the checkbox in
  the cell.\<close>

type_synonym box_path = "table_part \<times> nat \<times> nat \<times> nat"

definition map_nth :: "nat \<Rightarrow> ('a \<Rightarrow> 'a) \<Rightarrow> 'a list \<Rightarrow> 'a list" where
  "map_nth i f xs = (if i < length xs then xs[i := f (xs ! i)] else xs)"

definition nth_opt :: "'a list \<Rightarrow> nat \<Rightarrow> 'a option" where
  "nth_opt xs i = (if i < length xs then Some (xs ! i) else None)"

fun rows_of :: "table_part \<Rightarrow> table \<Rightarrow> row list" where
  "rows_of Head t = thead t"
| "rows_of Body t = tbody t"

fun map_rows :: "table_part \<Rightarrow> (row list \<Rightarrow> row list) \<Rightarrow> table \<Rightarrow> table" where
  "map_rows Head f t = t\<lparr>thead := f (thead t)\<rparr>"
| "map_rows Body f t = t\<lparr>tbody := f (tbody t)\<rparr>"

fun get_box :: "table \<Rightarrow> box_path \<Rightarrow> checkbox option" where
  "get_box t (s, r, c, b) =
    (case nth_opt (rows_of s t) r of
       None \<Rightarrow> None
     | Some rw \<Rightarrow>
        (case nth_opt (row_cells rw) c of
           None \<Rightarrow> None
         | Some cl \<Rightarrow> nth_opt (cell_boxes cl) b))"

fun map_box :: "box_path \<Rightarrow> (checkbox \<Rightarrow> checkbox) \<Rightarrow> table \<Rightarrow> table" where
  "map_box (s, r, c, b) f t =
    map_rows s
      (map_nth r (\<lambda>rw. rw\<lparr>row_cells :=
         map_nth c (\<lambda>cl. cl\<lparr>cell_boxes := map_nth b f (cell_boxes cl)\<rparr>) (row_cells rw)\<rparr>))
      t"

definition map_boxes_row :: "(checkbox \<Rightarrow> checkbox) \<Rightarrow> row \<Rightarrow> row" where
  "map_boxes_row f rw =
    rw\<lparr>row_cells := map (\<lambda>cl. cl\<lparr>cell_boxes := map f (cell_boxes cl)\<rparr>) (row_cells rw)\<rparr>"

definition map_boxes :: "(checkbox \<Rightarrow> checkbox) \<Rightarrow> table \<Rightarrow> table" where
  "map_boxes f t =
    t\<lparr>thead := map (map_boxes_row f) (thead t), tbody := map (map_boxes_row f) (tbody t)\<rparr>"

definition row_boxes :: "row \<Rightarrow> checkbox list" where
  "row_boxes rw = concat (map cell_boxes (row_cells rw))"

definition table_rows :: "table \<Rightarrow> row list" where
  "table_rows t = thead t @ tbody t"

definition is_select_row :: "checkbox \<Rightarrow> bool" where
  "is_select_row b = (''select-row'' \<in> set (cb_classes b))"

text \<open>\<^verbatim>\<open>table.querySelectorAll('.select-row')\<close> and
  \<^verbatim>\<open>table.querySelectorAll('.select-row:checked')\<close>.\<close>

definition select_rows :: "table \<Rightarrow> checkbox list" where
  "select_rows t = filter is_select_row (concat (map row_boxes (table_rows t)))"

definition checked_select_rows :: "table \<Rightarrow> checkbox list" where
  "checked_select_rows t = filter cb_checked (select_rows t)"

text \<open>\<^verbatim>\<open>table.querySelectorAll('.select-row').forEach(f)\<close>, for an \<open>f\<close> that writes to
  the checkbox it is given.\<close>

definition forEach_select_row :: "(checkbox \<Rightarrow> checkbox) \<Rightarrow> table \<Rightarrow> table" where
  "forEach_select_row f t = map_boxes (\<lambda>b. if is_select_row b then f b else b) t"

definition addEventListener :: "listener \<Rightarrow> checkbox \<Rightarrow> checkbox" where
  "addEventListener l b = b\<lparr>cb_listeners := cb_listeners b @ [l]\<rparr>"

subsection \<open>setupBatchSelection\<close>

text \<open>\<^verbatim>\<open>table.querySelector('thead th.select-column')\<close> finds an element.\<close>

definition hasCheckboxColumn :: "table \<Rightarrow> bool" where
  "hasCheckboxColumn t =
    list_ex (\<lambda>rw. list_ex (\<lambda>cl. cell_tag cl = TH \<and> ''select-column'' \<in> set (cell_classes cl))
                    (row_cells rw))
            (thead t)"

definition selectAllCheckbox :: checkbox where
  "selectAllCheckbox =
    \<lparr>cb_classes = [''form-check-input'', ''select-all''],
     cb_aria_label = ''Select all rows'',
     cb_checked = False, cb_indeterminate = False, cb_listeners = []\<rparr>"

definition selectAllHeader :: cell where
  "selectAllHeader =
    \<lparr>cell_tag = TH, cell_classes = [''select-column''], cell_width = ''40px'',
     cell_boxes = [selectAllCheckbox], cell_text = []\<rparr>"

definition rowCheckbox :: checkbox where
  "rowCheckbox =
    \<lparr>cb_classes = [''form-check-input'', ''select-row''],
     cb_aria_label = ''Select this row'',
     cb_checked = False, cb_indeterminate = False, cb_listeners = []\<rparr>"

definition selectCell :: cell where
  "selectCell =
    \<lparr>cell_tag = TD, cell_classes = [''select-column''], cell_width = [],
     cell_boxes = [rowCheckbox], cell_text = []\<rparr>"

text \<open>\<^verbatim>\<open>row.insertBefore(cell, row.firstChild)\<close>.\<close>

definition insertFirst :: "cell \<Rightarrow> row \<Rightarrow> row" where
  "insertFirst cl rw = rw\<lparr>row_cells := cl # row_cells rw\<rparr>"

text \<open>Once inserted, the select-all checkbox is the first checkbox of the first cell of
  the first header row; the closures of both listeners hold on to it.\<close>

definition selectAll_path :: box_path where
  "selectAll_path = (Head, 0, 0, 0)"

text \<open>The body of \<^verbatim>\<open>tables.forEach\<close> in \<^verbatim>\<open>setupBatchSelection\<close>.\<close>

definition setupBatchSelection_table :: "table \<Rightarrow> table" where
  "setupBatchSelection_table t =
    (if hasCheckboxColumn t then t
     else case thead t of
       [] \<Rightarrow> t
     | headerRow # others \<Rightarrow>
        (let t = t\<lparr>thead := insertFirst selectAllHeader headerRow # others\<rparr>;
             t = t\<lparr>tbody := map (insertFirst selectCell) (tbody t)\<rparr>;
             t = map_box selectAll_path (addEventListener SelectAllChange) t;
             t = forEach_select_row (addEventListener SelectRowChange) t
         in t))"

text \<open>\<^verbatim>\<open>document.querySelectorAll('.table')\<close> selects the tables of class
  \<^verbatim>\<open>table\<close>.\<close>

definition setupBatchSelection :: "page \<Rightarrow> page" where
  "setupBatchSelection p =
    p\<lparr>tables := map (\<lambda>t. if ''table'' \<in> set (table_classes t)
                           then setupBatchSelection_table t else t) (tables p)\<rparr>"

subsection \<open>updateBatchActionButtons and the change listeners\<close>

text \<open>\<^verbatim>\<open>document.querySelectorAll('.select-row:checked')\<close>: the query is on the
  document, so it goes through every table.\<close>

definition document_checked_rows :: "page \<Rightarrow> checkbox list" where
  "document_checked_rows p = concat (map checked_select_rows (tables p))"

text \<open>
  The loop body of \<^verbatim>\<open>updateBatchActionButtons\<close> when some row is selected, run over
  the \<^verbatim>\<open>.batch-actions\<close> elements in order: \<^verbatim>\<open>d-none\<close> is removed, then
  \<^verbatim>\<open>actionDiv.querySelector('.selected-count').textContent\<close> is written. On an
  element without a badge the query gives \<^verbatim>\<open>null\<close> and the write throws: that
  element has lost \<^verbatim>\<open>d-none\<close> already, the elements after it are not reached.
\<close>

fun show_controls :: "nat \<Rightarrow> batch_actions list \<Rightarrow> js_error option \<times> batch_actions list" where
  "show_controls n [] = (None, [])"
| "show_controls n (actionDiv # rest) =
    (let actionDiv = actionDiv\<lparr>ba_classes := classList_remove (ba_classes actionDiv) ''d-none''\<rparr>
     in case selected_count actionDiv of
          None \<Rightarrow> (Some TypeError, actionDiv # rest)
        | Some old \<Rightarrow>
            (case show_controls n rest of
               (e, rest') \<Rightarrow> (e, actionDiv\<lparr>selected_count := Some n\<rparr> # rest')))"

fun show_containers :: "nat \<Rightarrow> container list \<Rightarrow> js_error option \<times> container list" where
  "show_containers n [] = (None, [])"
| "show_containers n (c # cs) =
    (case show_controls n c of
       (Some e, c') \<Rightarrow> (Some e, c' # cs)
     | (None, c') \<Rightarrow>
         (case show_containers n cs of (e, cs') \<Rightarrow> (e, c' # cs')))"

definition hide_control :: "batch_actions \<Rightarrow> batch_actions" where
  "hide_control actionDiv =
    actionDiv\<lparr>ba_classes := classList_add (ba_classes actionDiv) ''d-none''\<rparr>"

definition updateBatchActionButtons :: "page \<Rightarrow> js_error option \<times> page" where
  "updateBatchActionButtons p =
    (let selectedRows = document_checked_rows p
     in if length selectedRows > 0 then
          (case show_containers (length selectedRows) (containers p) of
             (e, cs) \<Rightarrow> (e, p\<lparr>containers := cs\<rparr>))
        else (None, p\<lparr>containers := map (map hide_control) (containers p)\<rparr>))"

text \<open>The change listener of the select-all checkbox of table \<open>i\<close>; \<open>this\<close> is the
  checkbox the event is dispatched on. The rows are written before
  \<^verbatim>\<open>updateBatchActionButtons\<close> is called.\<close>

definition select_all_changed :: "nat \<Rightarrow> box_path \<Rightarrow> page \<Rightarrow> js_error option \<times> page" where
  "select_all_changed i this p =
    (case get_box (tables p ! i) this of
       None \<Rightarrow> (None, p)
     | Some box \<Rightarrow>
        (let isChecked = cb_checked box;
             p = p\<lparr>tables := (tables p)
                    [i := forEach_select_row (\<lambda>checkbox. checkbox\<lparr>cb_checked := isChecked\<rparr>)
                            (tables p ! i)]\<rparr>
         in updateBatchActionButtons p))"

text \<open>The change listener of a row checkbox of table \<open>i\<close>. Its first statement is the
  call of \<^verbatim>\<open>updateBatchActionButtons\<close>; when that throws, the listener ends there and
  the select-all checkbox is not written.\<close>

definition select_row_changed :: "nat \<Rightarrow> page \<Rightarrow> js_error option \<times> page" where
  "select_row_changed i p =
    (case updateBatchActionButtons p of
       (Some e, p) \<Rightarrow> (Some e, p)
     | (None, p) \<Rightarrow>
        (let allCheckboxes = select_rows (tables p ! i);
             checkedCheckboxes = checked_select_rows (tables p ! i)
         in (None,
             p\<lparr>tables := (tables p)
               [i := map_box selectAll_path
                       (\<lambda>b. b\<lparr>cb_checked := (length allCheckboxes = length checkedCheckboxes),
                               cb_indeterminate := (length checkedCheckboxes > 0 \<and>
                                                    length checkedCheckboxes < length allCheckboxes)\<rparr>)
                       (tables p ! i)]\<rparr>)))"

fun run_listener :: "nat \<Rightarrow> box_path \<Rightarrow> page \<Rightarrow> listener \<Rightarrow> js_error option \<times> page" where
  "run_listener i this p SelectAllChange = select_all_changed i this p"
| "run_listener i this p SelectRowChange = select_row_changed i p"

text \<open>A click on a checkbox: the browser flips its checkedness and clears its
  indeterminate flag, then the change event runs the listeners of the checkbox in the
  order they were added. An exception thrown by a listener is reported and does not stop
  the dispatch: the next listener runs on the page as the throw left it.\<close>

definition toggle :: "checkbox \<Rightarrow> checkbox" where
  "toggle b = b\<lparr>cb_checked := \<not> cb_checked b, cb_indeterminate := False\<rparr>"

definition click_checkbox :: "nat \<Rightarrow> box_path \<Rightarrow> page \<Rightarrow> page" where
  "click_checkbox i this p =
    (if i < length (tables p) then
       (case get_box (tables p ! i) this of
          None \<Rightarrow> p
        | Some box \<Rightarrow>
            foldl (\<lambda>p l. snd (run_listener i this p l))
                  (p\<lparr>tables := (tables p)[i := map_box this toggle (tables p ! i)]\<rparr>)
                  (cb_listeners box))
     else p)"

subsection \<open>setupBatchActionButtons\<close>

text \<open>\<^verbatim>\<open>s.includes(sub)\<close>.\<close>

fun str_includes :: "string \<Rightarrow> string \<Rightarrow> bool" where
  "str_includes [] sub = (sub = [])"
| "str_includes (c # cs) sub = (prefix sub (c # cs) \<or> str_includes cs sub)"

text \<open>\<^verbatim>\<open>xs.splice(start, 0, item)\<close> for \<open>start\<close> within the array.\<close>

definition splice_insert :: "nat \<Rightarrow> 'a \<Rightarrow> 'a list \<Rightarrow> 'a list" where
  "splice_insert start item xs = take start xs @ item # drop start xs"

definition exportAction :: action where
  "exportAction = \<lparr>action_text = ''Batch Export'', action_icon = ''bi-download'',
                   action_key = ''exportSelected'', action_class = None\<rparr>"

definition deleteAction :: action where
  "deleteAction = \<lparr>action_text = ''Batch Delete'', action_icon = ''bi-trash'',
                   action_key = ''deleteSelected'', action_class = Some ''text-danger''\<rparr>"

definition adjustPriceAction :: action where
  "adjustPriceAction = \<lparr>action_text = ''Batch Adjust Price'', action_icon = ''bi-currency-yen'',
                        action_key = ''adjustPrice'', action_class = None\<rparr>"

definition adjustStockAction :: action where
  "adjustStockAction = \<lparr>action_text = ''Batch Adjust Stock'', action_icon = ''bi-box-seam'',
                        action_key = ''adjustStock'', action_class = None\<rparr>"

definition batch_menu_actions :: "string \<Rightarrow> action list" where
  "batch_menu_actions path =
    (let actions = [exportAction, deleteAction]
     in if str_includes path ''/product/'' then splice_insert 1 adjustPriceAction actions
        else if str_includes path ''/inventory/'' then splice_insert 1 adjustStockAction actions
        else actions)"

definition batchActionsDiv :: "string \<Rightarrow> batch_actions" where
  "batchActionsDiv path =
    \<lparr>ba_classes = [''batch-actions'', ''dropdown'', ''d-none'', ''ms-2''],
     selected_count = Some 0,
     ba_menu = batch_menu_actions path\<rparr>"

text \<open>The controls are injected first; the closing call of
  \<^verbatim>\<open>updateBatchActionButtons\<close> can throw.\<close>

definition setupBatchActionButtons :: "page \<Rightarrow> js_error option \<times> page" where
  "setupBatchActionButtons p =
    updateBatchActionButtons
      (p\<lparr>containers :=
           map (\<lambda>container. if container = [] then container @ [batchActionsDiv (pathname p)]
                            else container)
               (containers p)\<rparr>)"

definition setupBatchOperations :: "page \<Rightarrow> js_error option \<times> page" where
  "setupBatchOperations p = setupBatchActionButtons (setupBatchSelection p)"

subsection \<open>Submissions\<close>

text \<open>A synthesized form as it is submitted: method, action, \<^verbatim>\<open>style.display\<close> and the
  name and value of each hidden input in the order they were appended.\<close>

record form =
  form_method :: string
  form_action :: string
  form_display :: string
  form_fields :: "(string \<times> string) list"

text \<open>\<^verbatim>\<open>document.querySelector('[name=csrfmiddlewaretoken]').value\<close> throws a
  TypeError when the page has no such element.\<close>

definition id_inputs :: "string list \<Rightarrow> (string \<times> string) list" where
  "id_inputs ids = map (\<lambda>id. (''selected_ids'', id)) ids"

definition exportSelectedItems :: "page \<Rightarrow> string list \<Rightarrow> js_error + form" where
  "exportSelectedItems p ids =
    (case csrf_token p of
       None \<Rightarrow> Inl TypeError
     | Some csrfToken \<Rightarrow>
        Inr \<lparr>form_method = ''POST'', form_action = pathname p @ ''export/'',
             form_display = ''none'',
             form_fields = (''csrfmiddlewaretoken'', csrfToken) # id_inputs ids\<rparr>)"

definition deleteSelectedItems :: "page \<Rightarrow> string list \<Rightarrow> js_error + form" where
  "deleteSelectedItems p ids =
    (case csrf_token p of
       None \<Rightarrow> Inl TypeError
     | Some csrfToken \<Rightarrow>
        Inr \<lparr>form_method = ''POST'', form_action = pathname p @ ''batch-delete/'',
             form_display = ''none'',
             form_fields = (''csrfmiddlewaretoken'', csrfToken) # id_inputs ids\<rparr>)"

definition submitPriceAdjustment ::
    "page \<Rightarrow> string list \<Rightarrow> string \<Rightarrow> string \<Rightarrow> string \<Rightarrow> js_error + form" where
  "submitPriceAdjustment p ids type val field =
    (case csrf_token p of
       None \<Rightarrow> Inl TypeError
     | Some csrfToken \<Rightarrow>
        Inr \<lparr>form_method = ''POST'', form_action = pathname p @ ''batch-adjust-price/'',
             form_display = ''none'',
             form_fields = [(''csrfmiddlewaretoken'', csrfToken),
                            (''adjustment_type'', type),
                            (''adjustment_value'', val),
                            (''adjustment_field'', field)] @ id_inputs ids\<rparr>)"

definition submitStockAdjustment ::
    "page \<Rightarrow> string list \<Rightarrow> string \<Rightarrow> string \<Rightarrow> string \<Rightarrow> js_error + form" where
  "submitStockAdjustment p ids type val notes =
    (case csrf_token p of
       None \<Rightarrow> Inl TypeError
     | Some csrfToken \<Rightarrow>
        Inr \<lparr>form_method = ''POST'', form_action = pathname p @ ''batch-adjust-stock/'',
             form_display = ''none'',
             form_fields = [(''csrfmiddlewaretoken'', csrfToken),
                            (''adjustment_type'', type),
                            (''adjustment_value'', val),
                            (''adjustment_notes'', notes)] @ id_inputs ids\<rparr>)"

subsection \<open>handleBatchAction\<close>

text \<open>What one call of \<^verbatim>\<open>handleBatchAction\<close> does: a toast (its text, its icon and
  the time in milliseconds after which it closes), a submitted form (or the
  exception that stopped it), a dialog or modal left open for the user with the
  identifiers it holds, or a console warning.\<close>

datatype effect =
    SwalToast string string nat
  | Submitted "js_error + form"
  | ConfirmDeleteDialog "string list"
  | AdjustPriceModal "string list"
  | AdjustStockModal "string list"
  | ConsoleWarn string

text \<open>\<^verbatim>\<open>showAlert(message, type)\<close>: a toast with the message and the icon of the
  type, which closes after 3000 ms.\<close>

definition showAlert :: "string \<Rightarrow> string \<Rightarrow> effect" where
  "showAlert message type = SwalToast message type 3000"

text \<open>\<^verbatim>\<open>row.getAttribute('data-id') || ''\<close> for each checked \<^verbatim>\<open>.select-row\<close> of a
  row.\<close>

definition row_selected_ids :: "row \<Rightarrow> string list" where
  "row_selected_ids rw =
    map (\<lambda>checkbox. case data_id rw of None \<Rightarrow> [] | Some v \<Rightarrow> v)
        (filter cb_checked (filter is_select_row (row_boxes rw)))"

definition selectedIds :: "page \<Rightarrow> string list" where
  "selectedIds p =
    filter (\<lambda>id. id \<noteq> [])
           (concat (map row_selected_ids (concat (map table_rows (tables p)))))"

definition handleBatchAction :: "page \<Rightarrow> string \<Rightarrow> effect" where
  "handleBatchAction p act =
    (let ids = selectedIds p
     in if length ids = 0 then showAlert ''Please select items to operate on first'' ''warning''
        else if act = ''exportSelected'' then Submitted (exportSelectedItems p ids)
        else if act = ''deleteSelected'' then ConfirmDeleteDialog ids
        else if act = ''adjustPrice'' then AdjustPriceModal ids
        else if act = ''adjustStock'' then AdjustStockModal ids
        else ConsoleWarn act)"

text \<open>The continuation of \<^verbatim>\<open>confirmDeleteSelected\<close>: the dialog resolves with
  \<open>isConfirmed\<close>, on the page as it is then.\<close>

definition confirmDeleteSelected :: "page \<Rightarrow> string list \<Rightarrow> bool \<Rightarrow> (js_error + form) option" where
  "confirmDeleteSelected p ids isConfirmed =
    (if isConfirmed then Some (deleteSelectedItems p ids) else None)"

text \<open>The click listener of the confirm button of the price modal: \<open>valid\<close> is
  \<^verbatim>\<open>form.checkValidity()\<close>, the three strings are the values of the modal's fields.\<close>

definition confirmAdjustPrice ::
    "page \<Rightarrow> string list \<Rightarrow> bool \<Rightarrow> string \<Rightarrow> string \<Rightarrow> string \<Rightarrow> (js_error + form) option" where
  "confirmAdjustPrice p ids valid type val field =
    (if valid then Some (submitPriceAdjustment p ids type val field) else None)"

definition confirmAdjustStock ::
    "page \<Rightarrow> string list \<Rightarrow> bool \<Rightarrow> string \<Rightarrow> string \<Rightarrow> string \<Rightarrow> (js_error + form) option" where
  "confirmAdjustStock p ids valid type val notes =
    (if valid then Some (submitStockAdjustment p ids type val notes) else None)"

text \<open>An effect that belongs to a submit or dialog handler.\<close>

fun reaches_handler :: "effect \<Rightarrow> bool" where
  "reaches_handler (Submitted f) = True"
| "reaches_handler (ConfirmDeleteDialog ids) = True"
| "reaches_handler (AdjustPriceModal ids) = True"
| "reaches_handler (AdjustStockModal ids) = True"
| "reaches_handler (SwalToast m k ms) = False"
| "reaches_handler (ConsoleWarn a) = False"

subsection \<open>Notions used in the properties\<close>

text \<open>A table that \<^verbatim>\<open>setupBatchSelection\<close> has given its selection column: the marker
  header cell is there, and the checkbox at the head of the first header row is the
  select-all checkbox with its change listener.\<close>

definition augmented :: "table \<Rightarrow> bool" where
  "augmented t =
    (hasCheckboxColumn t \<and>
     (case get_box t selectAll_path of
        None \<Rightarrow> False
      | Some b \<Rightarrow> cb_classes b = [''form-check-input'', ''select-all''] \<and>
                  cb_listeners b = [SelectAllChange]))"

text \<open>\<^verbatim>\<open>document.querySelectorAll('.batch-actions')\<close>, and whether such an element is
  hidden.\<close>

definition batch_controls :: "page \<Rightarrow> batch_actions list" where
  "batch_controls p = concat (containers p)"

definition is_hidden :: "batch_actions \<Rightarrow> bool" where
  "is_hidden a = (''d-none'' \<in> set (ba_classes a))"

text \<open>What the loop body of \<^verbatim>\<open>updateBatchActionButtons\<close> makes of an element with
  a badge when \<open>n\<close> rows are selected.\<close>

definition show_control :: "nat \<Rightarrow> batch_actions \<Rightarrow> batch_actions" where
  "show_control n a =
    a\<lparr>ba_classes := classList_remove (ba_classes a) ''d-none'', selected_count := Some n\<rparr>"

text \<open>Every \<^verbatim>\<open>.batch-actions\<close> element of the page has a \<^verbatim>\<open>.selected-count\<close>
  badge, as the elements that the script injects have.\<close>

definition all_badged :: "page \<Rightarrow> bool" where
  "all_badged p = list_all (\<lambda>a. selected_count a \<noteq> None) (batch_controls p)"

text \<open>The checked row checkboxes of the tables other than table \<open>i\<close>.\<close>

definition checked_elsewhere :: "nat \<Rightarrow> page \<Rightarrow> checkbox list" where
  "checked_elsewhere i p =
    concat (map checked_select_rows (take i (tables p) @ drop (Suc i) (tables p)))"

text \<open>The identifiers that the checked rows of one table contribute to
  \<^verbatim>\<open>handleBatchAction\<close>.\<close>

definition table_selected_ids :: "table \<Rightarrow> string list" where
  "table_selected_ids t =
    filter (\<lambda>id. id \<noteq> []) (concat (map row_selected_ids (table_rows t)))"

text \<open>The select-all checkbox of a table shows the state that the listener of the row
  checkboxes computes from the number of row checkboxes and the number of checked ones.\<close>

definition header_in_sync :: "table \<Rightarrow> bool" where
  "header_in_sync t =
    (case get_box t selectAll_path of
       None \<Rightarrow> False
     | Some h \<Rightarrow>
        cb_checked h = (length (checked_select_rows t) = length (select_rows t)) \<and>
        cb_indeterminate h = (0 < length (checked_select_rows t) \<and>
                              length (checked_select_rows t) < length (select_rows t)))"

subsection \<open>Example pages\<close>

text \<open>A table of class \<^verbatim>\<open>table\<close> with one header row and one body row for each given
  \<^verbatim>\<open>data-id\<close>, and pages made of such tables and one empty action container, as they
  are once \<^verbatim>\<open>setupBatchOperations\<close> has run.\<close>

definition text_cell :: "tag \<Rightarrow> string \<Rightarrow> cell" where
  "text_cell tg s =
    \<lparr>cell_tag = tg, cell_classes = [], cell_width = [], cell_boxes = [], cell_text = s\<rparr>"

definition example_table :: "string list \<Rightarrow> table" where
  "example_table ids =
    \<lparr>table_classes = [''table''],
     thead = [\<lparr>data_id = None, row_cells = [text_cell TH ''Name'']\<rparr>],
     tbody = map (\<lambda>id. \<lparr>data_id = Some id, row_cells = [text_cell TD ''item'']\<rparr>) ids\<rparr>"

definition example_page :: "string \<Rightarrow> string list list \<Rightarrow> page" where
  "example_page path idss =
    snd (setupBatchOperations
      \<lparr>pathname = path, csrf_token = Some ''tok'',
       tables = map example_table idss, containers = [[]]\<rparr>)"

text \<open>The same page when its markup already holds, before the empty action container, a
  \<^verbatim>\<open>.batch-actions\<close> element without a badge.\<close>

definition bare_control :: batch_actions where
  "bare_control = \<lparr>ba_classes = [''batch-actions'', ''d-none''], selected_count = None, ba_menu = []\<rparr>"

definition foreign_page :: "string \<Rightarrow> string list list \<Rightarrow> page" where
  "foreign_page path idss =
    snd (setupBatchOperations
      \<lparr>pathname = path, csrf_token = Some ''tok'',
       tables = map example_table idss, containers = [[bare_control], []]\<rparr>)"

text \<open>The row checkbox that \<^verbatim>\<open>setupBatchSelection\<close> puts in body row \<open>r\<close>.\<close>

definition row_box :: "nat \<Rightarrow> box_path" where
  "row_box r = (Body, r, 0, 0)"

section \<open>Properties of the password strength meter\<close>

lemma classList_add_contains: "classList_contains (classList_add cl c) c"
  by (simp add: classList_contains_def classList_add_def)

lemma utf16_example: "utf16 ''Ab1!Ab1!'' = [65, 98, 49, 33, 65, 98, 49, 33]"
  by (simp add: utf16_def)

lemmas char_class_defs =
  is_lower_def is_upper_def is_digit_def is_letter_def is_alnum_def is_special_def
  is_line_terminator_def

lemma example_score: "checkPasswordStrength (utf16 ''Ab1!Ab1!'') = 85"
  unfolding utf16_example
  by (simp add: checkPasswordStrength_def add_if_def test_class_def test_either_order_def
      char_class_defs)

lemma strength_label_strong:
  "80 \<le> s \<Longrightarrow> text_content (updatePasswordStrengthIndicator m s) = ''Strong''"
  by (simp add: updatePasswordStrengthIndicator_def Let_def)

lemma indicator_shows_strength:
  "indicator_width (updatePasswordStrengthIndicator m s) = s \<and>
   indicator_valuenow (updatePasswordStrengthIndicator m s) = s"
  by (simp add: updatePasswordStrengthIndicator_def Let_def)

lemma score_bounds: "0 \<le> checkPasswordStrength s \<and> checkPasswordStrength s \<le> 100"
  by (simp add: checkPasswordStrength_def add_if_def Let_def)

text \<open>
  C8: \<^verbatim>\<open>checkPasswordStrength("Ab1!Ab1!")\<close> is 85, which is at or above the threshold
  80 of the last branch of \<^verbatim>\<open>updatePasswordStrengthIndicator\<close>, so the text beside the
  bar reads "Strong"; and on an empty value the input listener adds \<^verbatim>\<open>d-none\<close> to the
  container of the strength meter, whatever state the meter was in.
\<close>

theorem strong_password_and_hidden_meter:
  "checkPasswordStrength (utf16 ''Ab1!Ab1!'') = 85
   \<and> 80 \<le> checkPasswordStrength (utf16 ''Ab1!Ab1!'')
   \<and> text_content (updatePasswordStrengthIndicator m (checkPasswordStrength (utf16 ''Ab1!Ab1!'')))
       = ''Strong''
   \<and> text_content (password_input (utf16 ''Ab1!Ab1!'') m) = ''Strong''
   \<and> classList_contains (container_classes (password_input (utf16 []) m)) ''d-none''"
proof -
  have nonempty: "utf16 ''Ab1!Ab1!'' \<noteq> []"
    by (simp add: utf16_def)
  have hidden: "classList_contains (container_classes (password_input (utf16 []) m)) ''d-none''"
    by (simp add: password_input_def utf16_def classList_add_contains)
  show ?thesis
    using nonempty hidden
    by (simp add: example_score strength_label_strong password_input_def)
qed

theorem strong_password_and_hidden_meter_witness:
  "text_content (password_input (utf16 ''Ab1!Ab1!'') new_strength_meter) = ''Strong''
   \<and> classList_contains (container_classes (password_input (utf16 []) new_strength_meter))
        ''d-none''"
  using strong_password_and_hidden_meter [of new_strength_meter] by simp

text \<open>
  C10: for every string, \<^verbatim>\<open>checkPasswordStrength\<close> returns an integer from 0 to 100:
  every component adds a positive constant or nothing, and the sum is capped at 100.
  This is the number \<^verbatim>\<open>updatePasswordStrengthIndicator\<close> writes as the width of the
  progress bar, in percent, and as its \<^verbatim>\<open>aria-valuenow\<close>.
\<close>

theorem checkPasswordStrength_percentage:
  "0 \<le> checkPasswordStrength s \<and> checkPasswordStrength s \<le> 100
   \<and> indicator_width (updatePasswordStrengthIndicator m (checkPasswordStrength s))
       = checkPasswordStrength s
   \<and> indicator_valuenow (updatePasswordStrengthIndicator m (checkPasswordStrength s))
       = checkPasswordStrength s"
  using score_bounds [of s] indicator_shows_strength [of m "checkPasswordStrength s"] by simp

theorem checkPasswordStrength_percentage_witness:
  "0 \<le> checkPasswordStrength (utf16 ''pw'') \<and> checkPasswordStrength (utf16 ''pw'') \<le> 100
   \<and> indicator_width (updatePasswordStrengthIndicator new_strength_meter
        (checkPasswordStrength (utf16 ''pw''))) = checkPasswordStrength (utf16 ''pw'')"
  using checkPasswordStrength_percentage [of "utf16 ''pw''" new_strength_meter] by simp

section \<open>Paths, updates and queries\<close>

lemma map_nth_length [simp]: "length (map_nth i f xs) = length xs"
  by (simp add: map_nth_def)

lemma nth_opt_map_nth:
  "nth_opt (map_nth i f xs) j = (if j = i then map_option f (nth_opt xs i) else nth_opt xs j)"
  by (simp add: map_nth_def nth_opt_def)

lemma rows_of_map_rows:
  "rows_of s (map_rows s' f t) = (if s = s' then f (rows_of s t) else rows_of s t)"
  by (cases s; cases s') simp_all

lemma get_box_map_box_same:
  "get_box t pth = Some b \<Longrightarrow> get_box (map_box pth f t) pth = Some (f b)"
proof (cases pth)
  case (fields s r c k)
  assume "get_box t pth = Some b"
  then show ?thesis
    unfolding fields
    by (auto simp: rows_of_map_rows nth_opt_map_nth split: option.splits)
qed

lemma get_box_map_box_other:
  "pth' \<noteq> pth \<Longrightarrow> get_box (map_box pth f t) pth' = get_box t pth'"
proof (cases pth)
  case (fields s r c k)
  assume d: "pth' \<noteq> pth"
  obtain s' r' c' k' where p': "pth' = (s', r', c', k')"
    by (cases pth') auto
  show ?thesis
    using d unfolding fields p'
    by (auto simp: rows_of_map_rows nth_opt_map_nth split: option.splits)
qed

lemma filter_concat_map_nth:
  assumes "i < length xs" "filter P (h (f (xs ! i))) = filter P (h (xs ! i))"
  shows "filter P (concat (map h (map_nth i f xs))) = filter P (concat (map h xs))"
proof -
  have a: "xs = take i xs @ xs ! i # drop (Suc i) xs"
    using assms(1) by (simp add: id_take_nth_drop)
  have b: "map_nth i f xs = take i xs @ f (xs ! i) # drop (Suc i) xs"
    using assms(1) by (simp add: map_nth_def upd_conv_take_nth_drop)
  have "filter P (concat (map h (map_nth i f xs)))
        = filter P (concat (map h (take i xs))) @ filter P (h (f (xs ! i)))
          @ filter P (concat (map h (drop (Suc i) xs)))"
    unfolding b by simp
  also have "\<dots> = filter P (concat (map h (take i xs))) @ filter P (h (xs ! i))
          @ filter P (concat (map h (drop (Suc i) xs)))"
    using assms(2) by simp
  also have "\<dots> = filter P (concat (map h (take i xs @ xs ! i # drop (Suc i) xs)))"
    by simp
  also have "\<dots> = filter P (concat (map h xs))"
    using a by simp
  finally show ?thesis .
qed

text \<open>Writing to a checkbox that is not a row checkbox, and does not become one, leaves
  the result of \<^verbatim>\<open>querySelectorAll('.select-row')\<close> as it was.\<close>

lemma filter_map_nth_box:
  assumes "k < length bs" "\<not> is_select_row (bs ! k)" "\<not> is_select_row (f (bs ! k))"
  shows "filter is_select_row (map_nth k f bs) = filter is_select_row bs"
proof -
  have "filter is_select_row (concat (map (\<lambda>b. [b]) (map_nth k f bs)))
        = filter is_select_row (concat (map (\<lambda>b. [b]) bs))"
    using assms by (intro filter_concat_map_nth) simp_all
  then show ?thesis by simp
qed

lemma select_rows_map_box:
  assumes "get_box t pth = Some b" "\<not> is_select_row b" "\<not> is_select_row (f b)"
  shows "select_rows (map_box pth f t) = select_rows t"
proof (cases pth)
  case (fields s r c k)
  from assms(1) obtain rw cl where
    r: "r < length (rows_of s t)" "rows_of s t ! r = rw" and
    c: "c < length (row_cells rw)" "row_cells rw ! c = cl" and
    k: "k < length (cell_boxes cl)" "cell_boxes cl ! k = b"
    unfolding fields by (auto simp: nth_opt_def split: if_splits)
  let ?fc = "\<lambda>cl. cl\<lparr>cell_boxes := map_nth k f (cell_boxes cl)\<rparr>"
  let ?fr = "\<lambda>rw. rw\<lparr>row_cells := map_nth c ?fc (row_cells rw)\<rparr>"
  have cell: "filter is_select_row (cell_boxes (?fc cl)) = filter is_select_row (cell_boxes cl)"
    using k assms(2,3) by (simp add: filter_map_nth_box)
  have row: "filter is_select_row (row_boxes (?fr rw)) = filter is_select_row (row_boxes rw)"
    unfolding row_boxes_def using c cell by (simp add: filter_concat_map_nth)
  have rows: "filter is_select_row (concat (map row_boxes (map_nth r ?fr (rows_of s t))))
              = filter is_select_row (concat (map row_boxes (rows_of s t)))"
    using r row by (simp add: filter_concat_map_nth)
  show ?thesis
    unfolding fields using rows
    by (cases s) (simp_all add: select_rows_def table_rows_def)
qed

lemma row_boxes_map_boxes_row: "row_boxes (map_boxes_row f rw) = map f (row_boxes rw)"
  by (simp add: row_boxes_def map_boxes_row_def map_concat comp_def)

lemma all_boxes_map_boxes:
  "concat (map row_boxes (table_rows (map_boxes f t)))
   = map f (concat (map row_boxes (table_rows t)))"
  by (simp add: table_rows_def map_boxes_def map_concat comp_def row_boxes_map_boxes_row)

lemma select_rows_forEach:
  assumes "\<And>b. is_select_row b \<Longrightarrow> is_select_row (f b)"
  shows "select_rows (forEach_select_row f t) = map f (select_rows t)"
proof -
  let ?g = "\<lambda>b. if is_select_row b then f b else b"
  have "filter is_select_row (map ?g bs) = map f (filter is_select_row bs)" for bs
    using assms by (induction bs) auto
  then show ?thesis
    by (simp add: select_rows_def forEach_select_row_def all_boxes_map_boxes)
qed

section \<open>Dispatch and submissions\<close>

lemma selectedIds_nonempty_ids: "x \<in> set (selectedIds p) \<Longrightarrow> x \<noteq> []"
  by (simp add: selectedIds_def)

lemma selectedIds_concat:
  "filter P (concat (map g (concat (map h ts)))) = concat (map (\<lambda>t. filter P (concat (map g (h t)))) ts)"
  by (induction ts) simp_all

lemma selectedIds_by_table:
  "selectedIds p = concat (map table_selected_ids (tables p))"
  unfolding selectedIds_def table_selected_ids_def by (rule selectedIds_concat)

lemma example_selection:
  "selectedIds (click_checkbox 0 (row_box 2) (click_checkbox 0 (row_box 0)
     (example_page ''/items/'' [[''7'', ''8'', ''9'']]))) = [''7'', ''9'']"
  by code_simp

lemma example_token:
  "csrf_token (click_checkbox 0 (row_box 2) (click_checkbox 0 (row_box 0)
     (example_page ''/items/'' [[''7'', ''8'', ''9'']]))) = Some ''tok''"
  by code_simp

lemma example_pathname:
  "pathname (click_checkbox 0 (row_box 2) (click_checkbox 0 (row_box 0)
     (example_page ''/items/'' [[''7'', ''8'', ''9'']]))) = ''/items/''"
  by code_simp

text \<open>
  C1: with the selected identifiers 7 and 9, the action \<^verbatim>\<open>deleteSelected\<close> opens the
  confirmation dialog on these two identifiers; when the dialog is confirmed, on a page
  \<open>p'\<close> whose token field holds \<open>tok\<close>, the form submitted is a POST to the path of the
  page followed by \<^verbatim>\<open>batch-delete/\<close>, and its fields are exactly the token field with
  the value \<open>tok\<close> and two \<^verbatim>\<open>selected_ids\<close> fields with the values 7 and 9.
\<close>

theorem delete_selected_submission:
  assumes "selectedIds p = [''7'', ''9'']" and "csrf_token p' = Some tok"
  shows "handleBatchAction p ''deleteSelected'' = ConfirmDeleteDialog [''7'', ''9'']
       \<and> confirmDeleteSelected p' [''7'', ''9''] True =
           Some (Inr \<lparr>form_method = ''POST'',
                      form_action = pathname p' @ ''batch-delete/'',
                      form_display = ''none'',
                      form_fields = [(''csrfmiddlewaretoken'', tok),
                                     (''selected_ids'', ''7''),
                                     (''selected_ids'', ''9'')]\<rparr>)"
  using assms
  by (simp add: handleBatchAction_def confirmDeleteSelected_def deleteSelectedItems_def
      id_inputs_def)

theorem delete_selected_submission_witness:
  "handleBatchAction
     (click_checkbox 0 (row_box 2) (click_checkbox 0 (row_box 0)
        (example_page ''/items/'' [[''7'', ''8'', ''9'']])))
     ''deleteSelected'' = ConfirmDeleteDialog [''7'', ''9'']
   \<and> confirmDeleteSelected
       (click_checkbox 0 (row_box 2) (click_checkbox 0 (row_box 0)
          (example_page ''/items/'' [[''7'', ''8'', ''9'']])))
       [''7'', ''9''] True =
         Some (Inr \<lparr>form_method = ''POST'',
                    form_action = ''/items/batch-delete/'',
                    form_display = ''none'',
                    form_fields = [(''csrfmiddlewaretoken'', ''tok''),
                                   (''selected_ids'', ''7''),
                                   (''selected_ids'', ''9'')]\<rparr>)"
  using delete_selected_submission [OF example_selection example_token]
  by (simp add: example_pathname)

text \<open>
  C3: whatever the action key, when no checked row contributes a non-empty
  \<^verbatim>\<open>data-id\<close> the call shows the warning toast and does nothing else: no form is
  built and no dialog is opened. A submit or dialog handler is reached only when the list
  of selected identifiers is not empty, and that list never holds an empty identifier.
\<close>

theorem empty_selection_only_warns:
  "(selectedIds p = [] \<longrightarrow>
      handleBatchAction p act = SwalToast ''Please select items to operate on first'' ''warning'' 3000)
   \<and> (reaches_handler (handleBatchAction p act) \<longrightarrow> selectedIds p \<noteq> [])
   \<and> [] \<notin> set (selectedIds p)"
proof -
  have "[] \<notin> set (selectedIds p)"
    using selectedIds_nonempty_ids by blast
  then show ?thesis
    by (auto simp: handleBatchAction_def showAlert_def)
qed

lemma example_no_selection: "selectedIds (example_page ''/items/'' [[''7'', ''8'', ''9'']]) = []"
  by code_simp

theorem empty_selection_only_warns_witness:
  "selectedIds (example_page ''/items/'' [[''7'', ''8'', ''9'']]) = []
   \<and> handleBatchAction (example_page ''/items/'' [[''7'', ''8'', ''9'']]) ''exportSelected''
       = SwalToast ''Please select items to operate on first'' ''warning'' 3000
   \<and> \<not> reaches_handler
         (handleBatchAction (example_page ''/items/'' [[''7'', ''8'', ''9'']]) ''exportSelected'')"
  using empty_selection_only_warns
          [of "example_page ''/items/'' [[''7'', ''8'', ''9'']]" "''exportSelected''"]
        example_no_selection
  by simp

text \<open>
  C4: for the adjustment type \<^verbatim>\<open>percentage\<close>, the value 10, the field \<^verbatim>\<open>price\<close>
  and a non-empty list of identifiers, on a page whose token field holds \<open>tok\<close>, the form
  submitted is a POST to the path of the page followed by \<^verbatim>\<open>batch-adjust-price/\<close>.
  Its fields are the token, \<^verbatim>\<open>adjustment_type\<close>, \<^verbatim>\<open>adjustment_value\<close> and
  \<^verbatim>\<open>adjustment_field\<close> with these values, then one \<^verbatim>\<open>selected_ids\<close> field for each
  identifier in order; no other field name occurs. The confirm button of the modal
  submits this form when the modal's form is valid.
\<close>

theorem price_adjustment_submission:
  assumes "ids \<noteq> []" and "csrf_token p = Some tok"
  shows "submitPriceAdjustment p ids ''percentage'' ''10'' ''price'' =
           Inr \<lparr>form_method = ''POST'',
                form_action = pathname p @ ''batch-adjust-price/'',
                form_display = ''none'',
                form_fields = [(''csrfmiddlewaretoken'', tok),
                               (''adjustment_type'', ''percentage''),
                               (''adjustment_value'', ''10''),
                               (''adjustment_field'', ''price'')]
                              @ map (\<lambda>id. (''selected_ids'', id)) ids\<rparr>
       \<and> confirmAdjustPrice p ids True ''percentage'' ''10'' ''price'' =
           Some (submitPriceAdjustment p ids ''percentage'' ''10'' ''price'')
       \<and> (\<forall>f. submitPriceAdjustment p ids ''percentage'' ''10'' ''price'' = Inr f \<longrightarrow>
             set (map fst (form_fields f)) =
               {''csrfmiddlewaretoken'', ''adjustment_type'', ''adjustment_value'',
                ''adjustment_field'', ''selected_ids''}
             \<and> map snd (filter (\<lambda>x. fst x = ''selected_ids'') (form_fields f)) = ids)"
proof -
  let ?idf = "map (\<lambda>id. (''selected_ids'', id)) ids"
  let ?fields = "[(''csrfmiddlewaretoken'', tok), (''adjustment_type'', ''percentage''),
                  (''adjustment_value'', ''10''), (''adjustment_field'', ''price'')] @ ?idf"
  let ?form = "\<lparr>form_method = ''POST'', form_action = pathname p @ ''batch-adjust-price/'',
                form_display = ''none'', form_fields = ?fields\<rparr>"
  have sub: "submitPriceAdjustment p ids ''percentage'' ''10'' ''price'' = Inr ?form"
    using assms(2) by (simp add: submitPriceAdjustment_def id_inputs_def)
  have conf: "confirmAdjustPrice p ids True ''percentage'' ''10'' ''price'' =
           Some (submitPriceAdjustment p ids ''percentage'' ''10'' ''price'')"
    by (simp add: confirmAdjustPrice_def)
  have "set (map fst ?idf) = {''selected_ids''}"
    using assms(1) by (cases ids) auto
  then have names: "set (map fst ?fields) =
               {''csrfmiddlewaretoken'', ''adjustment_type'', ''adjustment_value'',
                ''adjustment_field'', ''selected_ids''}"
    by simp
  have "map snd (filter (\<lambda>x. fst x = ''selected_ids'') ?idf) = ids"
    by (induction ids) simp_all
  then have vals: "map snd (filter (\<lambda>x. fst x = ''selected_ids'') ?fields) = ids"
    by simp
  show ?thesis
  proof (intro conjI allI impI)
    show "submitPriceAdjustment p ids ''percentage'' ''10'' ''price'' = Inr ?form"
      by (rule sub)
    show "confirmAdjustPrice p ids True ''percentage'' ''10'' ''price'' =
           Some (submitPriceAdjustment p ids ''percentage'' ''10'' ''price'')"
      by (rule conf)
  next
    fix f
    assume "submitPriceAdjustment p ids ''percentage'' ''10'' ''price'' = Inr f"
    with sub have "f = ?form"
      by simp
    then have f: "form_fields f = ?fields"
      by simp
    show "set (map fst (form_fields f)) =
               {''csrfmiddlewaretoken'', ''adjustment_type'', ''adjustment_value'',
                ''adjustment_field'', ''selected_ids''}"
      unfolding f by (rule names)
    show "map snd (filter (\<lambda>x. fst x = ''selected_ids'') (form_fields f)) = ids"
      unfolding f by (rule vals)
  qed
qed

theorem price_adjustment_submission_witness:
  "submitPriceAdjustment (example_page ''/product/'' [[''7'', ''8'', ''9'']]) [''7'', ''9'']
     ''percentage'' ''10'' ''price'' =
     Inr \<lparr>form_method = ''POST'',
          form_action = ''/product/batch-adjust-price/'',
          form_display = ''none'',
          form_fields = [(''csrfmiddlewaretoken'', ''tok''),
                         (''adjustment_type'', ''percentage''),
                         (''adjustment_value'', ''10''),
                         (''adjustment_field'', ''price''),
                         (''selected_ids'', ''7''),
                         (''selected_ids'', ''9'')]\<rparr>"
proof -
  have ids: "[''7'', ''9''] \<noteq> ([] :: string list)"
    by simp
  have tok: "csrf_token (example_page ''/product/'' [[''7'', ''8'', ''9'']]) = Some ''tok''"
    by code_simp
  have path: "pathname (example_page ''/product/'' [[''7'', ''8'', ''9'']]) = ''/product/''"
    by code_simp
  show ?thesis
    using price_adjustment_submission [OF ids tok] by (simp add: path)
qed

section \<open>The batch-actions controls\<close>

text \<open>Whether it throws or not, \<^verbatim>\<open>updateBatchActionButtons\<close> touches neither the
  tables nor the menus, and adds or removes no element.\<close>

lemma show_controls_menus: "map ba_menu (snd (show_controls n c)) = map ba_menu c"
  by (induction c) (auto simp: Let_def split: option.splits prod.splits)

lemma show_containers_menus:
  "map (map ba_menu) (snd (show_containers n cs)) = map (map ba_menu) cs"
proof (induction cs)
  case Nil
  then show ?case by simp
next
  case (Cons c cs)
  have "map ba_menu (snd (show_controls n c)) = map ba_menu c"
    by (rule show_controls_menus)
  then show ?case
    using Cons by (auto split: option.splits prod.splits)
qed

lemma tables_updateBatchActionButtons [simp]:
  "tables (snd (updateBatchActionButtons p)) = tables p"
  by (simp add: updateBatchActionButtons_def Let_def split: prod.splits)

lemma pathname_updateBatchActionButtons [simp]:
  "pathname (snd (updateBatchActionButtons p)) = pathname p"
  by (simp add: updateBatchActionButtons_def Let_def split: prod.splits)

lemma document_checked_rows_update [simp]:
  "document_checked_rows (snd (updateBatchActionButtons p)) = document_checked_rows p"
  by (simp add: document_checked_rows_def)

lemma containers_updateBatchActionButtons:
  "map (map ba_menu) (containers (snd (updateBatchActionButtons p)))
   = map (map ba_menu) (containers p)"
proof (cases "0 < length (document_checked_rows p)")
  case True
  then have "containers (snd (updateBatchActionButtons p))
             = snd (show_containers (length (document_checked_rows p)) (containers p))"
    by (simp add: updateBatchActionButtons_def Let_def split: prod.splits)
  then show ?thesis
    by (simp add: show_containers_menus)
next
  case False
  then show ?thesis
    by (simp add: updateBatchActionButtons_def Let_def hide_control_def comp_def)
qed

text \<open>With no row selected, the else-branch runs on every element: each is hidden, no
  badge is written, nothing throws.\<close>

lemma update_none_selected:
  assumes "length (document_checked_rows p) = 0"
  shows "updateBatchActionButtons p
         = (None, p\<lparr>containers := map (map hide_control) (containers p)\<rparr>)"
  using assms by (simp add: updateBatchActionButtons_def)

lemma update_badges_zero:
  assumes "length (document_checked_rows p) = 0"
  shows "map selected_count (batch_controls (snd (updateBatchActionButtons p)))
         = map selected_count (batch_controls p)"
    and "\<forall>a \<in> set (batch_controls (snd (updateBatchActionButtons p))). is_hidden a"
  unfolding update_none_selected [OF assms]
  by (auto simp: batch_controls_def map_concat comp_def hide_control_def is_hidden_def
      classList_add_def)

text \<open>When every element has its badge the loop runs to its end.\<close>

lemma show_controls_badged:
  assumes "list_all (\<lambda>a. selected_count a \<noteq> None) c"
  shows "show_controls n c = (None, map (show_control n) c)"
  using assms by (induction c) (auto simp: show_control_def)

lemma show_containers_badged:
  assumes "list_all (\<lambda>a. selected_count a \<noteq> None) (concat cs)"
  shows "show_containers n cs = (None, map (map (show_control n)) cs)"
  using assms by (induction cs) (auto simp: show_controls_badged)

lemma update_some_selected:
  assumes "all_badged p" "0 < length (document_checked_rows p)"
  shows "updateBatchActionButtons p
         = (None, p\<lparr>containers :=
                      map (map (show_control (length (document_checked_rows p)))) (containers p)\<rparr>)"
  using assms
  by (simp add: updateBatchActionButtons_def all_badged_def batch_controls_def
      show_containers_badged)

lemma update_no_throw:
  assumes "all_badged p"
  shows "fst (updateBatchActionButtons p) = None"
proof (cases "0 < length (document_checked_rows p)")
  case True
  then show ?thesis by (simp add: update_some_selected [OF assms])
next
  case False
  then show ?thesis by (simp add: update_none_selected)
qed

lemma update_badges:
  assumes "all_badged p" "0 < length (document_checked_rows p)"
  shows "\<forall>a \<in> set (batch_controls (snd (updateBatchActionButtons p))).
           \<not> is_hidden a \<and> selected_count a = Some (length (document_checked_rows p))"
  unfolding update_some_selected [OF assms]
  by (auto simp: batch_controls_def show_control_def is_hidden_def classList_remove_def)

lemma update_keeps_badges:
  assumes "all_badged p"
  shows "all_badged (snd (updateBatchActionButtons p))"
proof (cases "0 < length (document_checked_rows p)")
  case True
  show ?thesis
    using assms unfolding update_some_selected [OF assms True]
    by (auto simp: all_badged_def batch_controls_def list_all_iff show_control_def)
next
  case False
  then have z: "length (document_checked_rows p) = 0"
    by simp
  show ?thesis
    using assms unfolding update_none_selected [OF z]
    by (auto simp: all_badged_def batch_controls_def list_all_iff hide_control_def)
qed

lemma all_badged_tables [simp]: "all_badged (p\<lparr>tables := ts\<rparr>) = all_badged p"
  by (simp add: all_badged_def batch_controls_def)

section \<open>The action menu\<close>

lemma str_includes_sublist: "str_includes s sub = sublist sub s"
proof (induction s)
  case Nil
  then show ?case by simp
next
  case (Cons c cs)
  then show ?case
    by (cases sub) (simp_all add: sublist_Cons_right)
qed

lemma str_includes_iff: "str_includes s sub \<longleftrightarrow> (\<exists>u v. s = u @ sub @ v)"
  by (simp add: str_includes_sublist sublist_def)

text \<open>
  C7: the menu holds Batch Export first and Batch Delete last, and between them, at
  index 1, the price action when the path contains \<^verbatim>\<open>/product/\<close>, else the stock
  action when the path contains \<^verbatim>\<open>/inventory/\<close>, else nothing; so the product match
  wins when both substrings occur. This is the menu of the control injected into every
  action container that has none; the injection is done before the closing call of
  \<^verbatim>\<open>updateBatchActionButtons\<close>, so it is there whether that call throws or not.
\<close>

theorem batch_menu_by_path:
  "batch_menu_actions path =
     (if str_includes path ''/product/'' then [exportAction, adjustPriceAction, deleteAction]
      else if str_includes path ''/inventory/'' then [exportAction, adjustStockAction, deleteAction]
      else [exportAction, deleteAction])
   \<and> (k < length (containers p) \<and> containers p ! k = [] \<longrightarrow>
        map ba_menu (containers (snd (setupBatchActionButtons p)) ! k)
        = [batch_menu_actions (pathname p)])
   \<and> map action_text [exportAction, adjustPriceAction, adjustStockAction, deleteAction]
       = [''Batch Export'', ''Batch Adjust Price'', ''Batch Adjust Stock'', ''Batch Delete'']
   \<and> map action_key [exportAction, adjustPriceAction, adjustStockAction, deleteAction]
       = [''exportSelected'', ''adjustPrice'', ''adjustStock'', ''deleteSelected'']"
proof -
  have menu: "batch_menu_actions path =
     (if str_includes path ''/product/'' then [exportAction, adjustPriceAction, deleteAction]
      else if str_includes path ''/inventory/'' then [exportAction, adjustStockAction, deleteAction]
      else [exportAction, deleteAction])"
    by (simp add: batch_menu_actions_def splice_insert_def Let_def)
  have inject: "map ba_menu (containers (snd (setupBatchActionButtons p)) ! k)
                = [batch_menu_actions (pathname p)]"
    if k: "k < length (containers p)" and e: "containers p ! k = []"
  proof -
    let ?q = "p\<lparr>containers :=
           map (\<lambda>container. if container = [] then container @ [batchActionsDiv (pathname p)]
                            else container)
               (containers p)\<rparr>"
    have m: "map (map ba_menu) (containers (snd (setupBatchActionButtons p)))
             = map (map ba_menu) (containers ?q)"
      unfolding setupBatchActionButtons_def by (simp only: containers_updateBatchActionButtons)
    then have "length (map (map ba_menu) (containers (snd (setupBatchActionButtons p))))
               = length (map (map ba_menu) (containers ?q))"
      by simp
    then have len: "length (containers (snd (setupBatchActionButtons p))) = length (containers p)"
      by simp
    have "map ba_menu (containers (snd (setupBatchActionButtons p)) ! k)
          = map (map ba_menu) (containers (snd (setupBatchActionButtons p))) ! k"
      using k len by simp
    also have "\<dots> = map (map ba_menu) (containers ?q) ! k"
      by (simp only: m)
    also have "\<dots> = [batch_menu_actions (pathname p)]"
      using k e by (simp add: batchActionsDiv_def)
    finally show ?thesis .
  qed
  have texts: "map action_text [exportAction, adjustPriceAction, adjustStockAction, deleteAction]
       = [''Batch Export'', ''Batch Adjust Price'', ''Batch Adjust Stock'', ''Batch Delete'']"
    by (simp add: exportAction_def adjustPriceAction_def adjustStockAction_def deleteAction_def)
  have keys: "map action_key [exportAction, adjustPriceAction, adjustStockAction, deleteAction]
       = [''exportSelected'', ''adjustPrice'', ''adjustStock'', ''deleteSelected'']"
    by (simp add: exportAction_def adjustPriceAction_def adjustStockAction_def deleteAction_def)
  show ?thesis
    using menu inject texts keys by blast
qed

lemma example_both_match:
  "str_includes ''/product/inventory/'' ''/product/''
   \<and> str_includes ''/product/inventory/'' ''/inventory/''"
  by simp

theorem batch_menu_by_path_witness:
  "batch_menu_actions ''/product/inventory/'' = [exportAction, adjustPriceAction, deleteAction]
   \<and> map ba_menu (containers (snd (setupBatchActionButtons
          \<lparr>pathname = ''/product/inventory/'', csrf_token = None, tables = [],
           containers = [[]]\<rparr>)) ! 0)
       = [[exportAction, adjustPriceAction, deleteAction]]"
  using batch_menu_by_path [of "''/product/inventory/''" 0
          "\<lparr>pathname = ''/product/inventory/'', csrf_token = None, tables = [],
            containers = [[]]\<rparr>"]
        example_both_match
  by simp

section \<open>The selection column\<close>

lemma map_nth_0_Cons [simp]: "map_nth 0 f (x # xs) = f x # xs"
  by (simp add: map_nth_def)

lemma list_ex_map_nth:
  assumes "\<And>x. P (f x) = P x"
  shows "list_ex P (map_nth i f xs) = list_ex P xs"
proof (cases "i < length xs")
  case True
  then have "map P (map_nth i f xs) = map P xs"
    using assms by (simp add: map_nth_def map_update list_update_same_conv)
  then have "list_ex id (map P (map_nth i f xs)) = list_ex id (map P xs)"
    by simp
  then show ?thesis
    by (simp add: list_ex_iff)
next
  case False
  then show ?thesis by (simp add: map_nth_def)
qed

lemma hasCheckboxColumn_map_boxes: "hasCheckboxColumn (map_boxes f t) = hasCheckboxColumn t"
  by (simp add: hasCheckboxColumn_def map_boxes_def map_boxes_row_def list_ex_iff)

lemma hasCheckboxColumn_map_box: "hasCheckboxColumn (map_box pth f t) = hasCheckboxColumn t"
proof (cases pth)
  case (fields s r c k)
  show ?thesis
  proof (cases s)
    case Head
    then show ?thesis
      unfolding fields by (simp add: hasCheckboxColumn_def list_ex_map_nth)
  next
    case Body
    then show ?thesis
      unfolding fields by (simp add: hasCheckboxColumn_def)
  qed
qed

lemma table_classes_map_boxes [simp]: "table_classes (map_boxes f t) = table_classes t"
  by (simp add: map_boxes_def)

lemma table_classes_map_box [simp]: "table_classes (map_box pth f t) = table_classes t"
proof (cases pth)
  case (fields s r c k)
  then show ?thesis by (cases s) simp_all
qed

text \<open>What the body of the loop does to a table that has a header row and no selection
  column yet.\<close>

lemma setup_table_unfold:
  assumes "\<not> hasCheckboxColumn t" "thead t = headerRow # others"
  shows "setupBatchSelection_table t =
    forEach_select_row (addEventListener SelectRowChange)
      (t\<lparr>thead := insertFirst
                     (selectAllHeader\<lparr>cell_boxes :=
                        [addEventListener SelectAllChange selectAllCheckbox]\<rparr>)
                     headerRow # others,
         tbody := map (insertFirst selectCell) (tbody t)\<rparr>)"
  using assms
  by (cases t)
     (simp add: setupBatchSelection_table_def selectAll_path_def insertFirst_def
      selectAllHeader_def Let_def)

lemma setup_table_marker:
  assumes "\<not> hasCheckboxColumn t" "thead t \<noteq> []"
  shows "hasCheckboxColumn (setupBatchSelection_table t)"
proof -
  obtain headerRow others where h: "thead t = headerRow # others"
    using assms(2) by (cases "thead t") auto
  show ?thesis
    unfolding setup_table_unfold [OF assms(1) h] forEach_select_row_def
      hasCheckboxColumn_map_boxes
    by (simp add: hasCheckboxColumn_def insertFirst_def selectAllHeader_def)
qed

lemma setup_table_classes [simp]:
  "table_classes (setupBatchSelection_table t) = table_classes t"
  by (simp add: setupBatchSelection_table_def forEach_select_row_def Let_def
      split: list.splits)

lemma setup_table_twice:
  "setupBatchSelection_table (setupBatchSelection_table t) = setupBatchSelection_table t"
proof (cases "hasCheckboxColumn t \<or> thead t = []")
  case True
  then show ?thesis
    by (auto simp: setupBatchSelection_table_def)
next
  case False
  then have "hasCheckboxColumn (setupBatchSelection_table t)"
    by (simp add: setup_table_marker)
  then show ?thesis
    by (simp add: setupBatchSelection_table_def [of "setupBatchSelection_table t"])
qed

lemma setup_table_augmented:
  assumes "\<not> hasCheckboxColumn t" "thead t \<noteq> []"
  shows "augmented (setupBatchSelection_table t)"
proof -
  obtain headerRow others where h: "thead t = headerRow # others"
    using assms(2) by (cases "thead t") auto
  have "get_box (setupBatchSelection_table t) selectAll_path
        = Some (addEventListener SelectAllChange selectAllCheckbox)"
    unfolding setup_table_unfold [OF assms(1) h]
    by (simp add: forEach_select_row_def map_boxes_def map_boxes_row_def selectAll_path_def
        nth_opt_def insertFirst_def selectAllHeader_def addEventListener_def
        selectAllCheckbox_def is_select_row_def)
  then show ?thesis
    using setup_table_marker [OF assms]
    by (simp add: augmented_def addEventListener_def selectAllCheckbox_def)
qed

text \<open>
  C6: the augmentation step is idempotent. On a table that has the marker header cell
  (\<^verbatim>\<open>thead th.select-column\<close>) the step changes nothing, so no second checkbox column
  is added to the header or to a row; a table that was given its column has the marker;
  and running the step twice, on a table or on the whole page, gives what running it
  once gives.
\<close>

theorem setupBatchSelection_idempotent:
  "(hasCheckboxColumn t \<longrightarrow> setupBatchSelection_table t = t)
   \<and> (thead t \<noteq> [] \<longrightarrow> hasCheckboxColumn (setupBatchSelection_table t))
   \<and> setupBatchSelection_table (setupBatchSelection_table t) = setupBatchSelection_table t
   \<and> setupBatchSelection (setupBatchSelection p) = setupBatchSelection p"
proof -
  have one: "hasCheckboxColumn t \<longrightarrow> setupBatchSelection_table t = t"
    by (simp add: setupBatchSelection_table_def)
  have marker: "thead t \<noteq> [] \<longrightarrow> hasCheckboxColumn (setupBatchSelection_table t)"
    using one setup_table_marker by (cases "hasCheckboxColumn t") auto
  have page: "setupBatchSelection (setupBatchSelection p) = setupBatchSelection p"
    by (simp add: setupBatchSelection_def setup_table_twice)
  show ?thesis
    using one marker page setup_table_twice by blast
qed

lemma example_augmented_marker:
  "hasCheckboxColumn (setupBatchSelection_table (example_table [''7'', ''9'']))"
  by code_simp

theorem setupBatchSelection_idempotent_witness:
  "hasCheckboxColumn (setupBatchSelection_table (example_table [''7'', ''9'']))
   \<and> setupBatchSelection_table (setupBatchSelection_table (example_table [''7'', ''9'']))
       = setupBatchSelection_table (example_table [''7'', ''9''])
   \<and> map (length \<circ> row_cells)
         (table_rows (setupBatchSelection_table
            (setupBatchSelection_table (example_table [''7'', ''9''])))) = [2, 2, 2]"
proof -
  have cells: "map (length \<circ> row_cells)
      (table_rows (setupBatchSelection_table (example_table [''7'', ''9'']))) = [2, 2, 2]"
    by code_simp
  show ?thesis
    using setupBatchSelection_idempotent
            [of "setupBatchSelection_table (example_table [''7'', ''9''])"]
          example_augmented_marker cells
    by simp
qed

section \<open>The change listeners\<close>

lemma not_select_row_selectAll:
  "cb_classes b = [''form-check-input'', ''select-all''] \<Longrightarrow> \<not> is_select_row b"
  by (simp add: is_select_row_def)

lemma augmented_header:
  assumes "augmented t"
  obtains h where "get_box t selectAll_path = Some h" "\<not> is_select_row h"
    "cb_classes h = [''form-check-input'', ''select-all'']" "cb_listeners h = [SelectAllChange]"
  using assms by (auto simp: augmented_def not_select_row_selectAll split: option.splits)



lemma click_single_listener:
  assumes "i < length (tables p)" "get_box (tables p ! i) this = Some box"
    "cb_listeners box = [l]"
  shows "click_checkbox i this p =
           snd (run_listener i this
                  (p\<lparr>tables := (tables p)[i := map_box this toggle (tables p ! i)]\<rparr>) l)"
  using assms by (simp add: click_checkbox_def)


lemma example_page_augmented:
  "augmented (tables (example_page ''/items/'' [[''7'', ''8'', ''9'']]) ! 0)"
  by code_simp

lemma example_page_tables: "0 < length (tables (example_page ''/items/'' [[''7'', ''8'', ''9'']]))"
  by code_simp

lemma example_page_badged: "all_badged (example_page ''/items/'' [[''7'', ''8'', ''9'']])"
  by code_simp




lemma get_box_map_boxes: "get_box (map_boxes f t) pth = map_option f (get_box t pth)"
proof (cases pth)
  case (fields s r c k)
  show ?thesis
    unfolding fields
    by (cases s) (simp_all add: map_boxes_def map_boxes_row_def nth_opt_def)
qed

lemma get_box_forEach_other:
  assumes "get_box t pth = Some b" "\<not> is_select_row b"
  shows "get_box (forEach_select_row f t) pth = Some b"
  using assms by (simp add: forEach_select_row_def get_box_map_boxes)

lemma length_concat_update:
  assumes "i < length ts"
  shows "length (concat (map f (ts[i := x])))
         = length (f x) + length (concat (map f (take i ts @ drop (Suc i) ts)))"
  using assms by (simp add: upd_conv_take_nth_drop)

lemma checked_after_set:
  "length (filter cb_checked (map (\<lambda>b. b\<lparr>cb_checked := v\<rparr>) bs)) = (if v then length bs else 0)"
  by (induction bs) simp_all

text \<open>A click on the select-all checkbox of an augmented table, step by step.\<close>

lemma click_select_all_unfold:
  assumes i: "i < length (tables p)" and a: "augmented (tables p ! i)"
    and h: "get_box (tables p ! i) selectAll_path = Some h"
  shows "click_checkbox i selectAll_path p =
           snd (updateBatchActionButtons
             (p\<lparr>tables := (tables p)
                  [i := forEach_select_row (\<lambda>checkbox. checkbox\<lparr>cb_checked := \<not> cb_checked h\<rparr>)
                          (map_box selectAll_path toggle (tables p ! i))]\<rparr>))"
proof -
  from a h have l: "cb_listeners h = [SelectAllChange]"
    by (auto simp: augmented_def)
  let ?q = "p\<lparr>tables := (tables p)[i := map_box selectAll_path toggle (tables p ! i)]\<rparr>"
  have "get_box (tables ?q ! i) selectAll_path = Some (toggle h)"
    using i h by (simp add: get_box_map_box_same)
  then have "select_all_changed i selectAll_path ?q =
           updateBatchActionButtons
             (?q\<lparr>tables := (tables ?q)
                  [i := forEach_select_row (\<lambda>checkbox. checkbox\<lparr>cb_checked := \<not> cb_checked h\<rparr>)
                          (tables ?q ! i)]\<rparr>)"
    by (simp add: select_all_changed_def Let_def toggle_def)
  then show ?thesis
    using click_single_listener [OF i h l] i by simp
qed

text \<open>
  C5, as the code has it: a click on the select-all checkbox of an augmented table with
  N row checkboxes flips that checkbox and sets all N row checkboxes of the table to its
  new value. Afterwards, with \<open>c\<close> the number of checked row checkboxes in the whole
  document, which is N or 0 for this table plus the checked row checkboxes of the other
  tables: when \<open>c\<close> is positive and every \<^verbatim>\<open>.batch-actions\<close> element of the page has
  its \<^verbatim>\<open>.selected-count\<close> badge, every batch-actions control is visible and its badge
  shows \<open>c\<close>; when \<open>c\<close> is 0 every control is hidden and its badge keeps what it showed.
\<close>

theorem select_all_sets_rows:
  assumes "i < length (tables p)" and "augmented (tables p ! i)"
    and "get_box (tables p ! i) selectAll_path = Some h"
  shows "get_box (tables (click_checkbox i selectAll_path p) ! i) selectAll_path = Some (toggle h)
       \<and> select_rows (tables (click_checkbox i selectAll_path p) ! i)
           = map (\<lambda>b. b\<lparr>cb_checked := \<not> cb_checked h\<rparr>) (select_rows (tables p ! i))
       \<and> length (document_checked_rows (click_checkbox i selectAll_path p))
           = (if \<not> cb_checked h then length (select_rows (tables p ! i)) else 0)
             + length (checked_elsewhere i p)
       \<and> (all_badged p \<and>
            0 < length (document_checked_rows (click_checkbox i selectAll_path p)) \<longrightarrow>
            (\<forall>a \<in> set (batch_controls (click_checkbox i selectAll_path p)).
               \<not> is_hidden a \<and>
               selected_count a
                 = Some (length (document_checked_rows (click_checkbox i selectAll_path p)))))
       \<and> (length (document_checked_rows (click_checkbox i selectAll_path p)) = 0 \<longrightarrow>
            (\<forall>a \<in> set (batch_controls (click_checkbox i selectAll_path p)). is_hidden a)
            \<and> map selected_count (batch_controls (click_checkbox i selectAll_path p))
                = map selected_count (batch_controls p))"
proof -
  define v where "v = (\<not> cb_checked h)"
  define t1 where "t1 = map_box selectAll_path toggle (tables p ! i)"
  define t2 where "t2 = forEach_select_row (\<lambda>checkbox. checkbox\<lparr>cb_checked := v\<rparr>) t1"
  define q where "q = p\<lparr>tables := (tables p)[i := t2]\<rparr>"
  have click: "click_checkbox i selectAll_path p = snd (updateBatchActionButtons q)"
    unfolding q_def t2_def t1_def v_def using assms by (rule click_select_all_unfold)
  from assms(2,3) have nr: "\<not> is_select_row h"
    by (auto simp: augmented_def not_select_row_selectAll)
  then have nr': "\<not> is_select_row (toggle h)"
    by (simp add: is_select_row_def toggle_def)
  have ti: "tables (snd (updateBatchActionButtons q)) ! i = t2"
    using assms(1) by (simp add: q_def)
  have h1: "get_box t1 selectAll_path = Some (toggle h)"
    unfolding t1_def using assms(3) by (rule get_box_map_box_same)
  have header: "get_box t2 selectAll_path = Some (toggle h)"
    unfolding t2_def using h1 nr' by (rule get_box_forEach_other)
  have "select_rows t1 = select_rows (tables p ! i)"
    unfolding t1_def using assms(3) nr nr' by (rule select_rows_map_box)
  moreover have "select_rows t2 = map (\<lambda>b. b\<lparr>cb_checked := v\<rparr>) (select_rows t1)"
    unfolding t2_def by (rule select_rows_forEach) (simp add: is_select_row_def)
  ultimately have rows:
    "select_rows t2 = map (\<lambda>b. b\<lparr>cb_checked := v\<rparr>) (select_rows (tables p ! i))"
    by simp
  have "length (checked_select_rows t2) = (if v then length (select_rows (tables p ! i)) else 0)"
    unfolding checked_select_rows_def rows by (rule checked_after_set)
  moreover have "checked_elsewhere i q = checked_elsewhere i p"
    by (simp add: checked_elsewhere_def q_def)
  moreover have "length (document_checked_rows q)
        = length (checked_select_rows t2) + length (checked_elsewhere i p)"
    unfolding document_checked_rows_def checked_elsewhere_def q_def
    using assms(1) by (simp add: length_concat_update)
  ultimately have count: "length (document_checked_rows (snd (updateBatchActionButtons q)))
        = (if v then length (select_rows (tables p ! i)) else 0) + length (checked_elsewhere i p)"
    by simp
  have cq: "batch_controls q = batch_controls p"
    by (simp add: batch_controls_def q_def)
  have bq: "all_badged q = all_badged p"
    by (simp add: q_def)
  have badges: "all_badged p \<and> 0 < length (document_checked_rows (snd (updateBatchActionButtons q)))
        \<longrightarrow> (\<forall>a \<in> set (batch_controls (snd (updateBatchActionButtons q))).
               \<not> is_hidden a \<and>
               selected_count a
                 = Some (length (document_checked_rows (snd (updateBatchActionButtons q)))))"
    using update_badges [of q] bq by simp
  have stale: "length (document_checked_rows (snd (updateBatchActionButtons q))) = 0 \<longrightarrow>
            (\<forall>a \<in> set (batch_controls (snd (updateBatchActionButtons q))). is_hidden a)
            \<and> map selected_count (batch_controls (snd (updateBatchActionButtons q)))
                = map selected_count (batch_controls p)"
    using update_badges_zero [of q] cq by simp
  have first: "get_box (tables (snd (updateBatchActionButtons q)) ! i) selectAll_path
               = Some (toggle h)"
    unfolding ti by (rule header)
  have second: "select_rows (tables (snd (updateBatchActionButtons q)) ! i)
           = map (\<lambda>b. b\<lparr>cb_checked := \<not> cb_checked h\<rparr>) (select_rows (tables p ! i))"
    unfolding ti using rows by (simp add: v_def)
  have third: "length (document_checked_rows (snd (updateBatchActionButtons q)))
           = (if \<not> cb_checked h then length (select_rows (tables p ! i)) else 0)
             + length (checked_elsewhere i p)"
    using count by (simp add: v_def)
  show ?thesis
    unfolding click using first second third badges stale by blast
qed

lemma example_header:
  "get_box (tables (example_page ''/items/'' [[''7'', ''8'', ''9'']]) ! 0) selectAll_path
     = Some (addEventListener SelectAllChange selectAllCheckbox)"
  by code_simp

lemma example_three_rows:
  "length (select_rows (tables (example_page ''/items/'' [[''7'', ''8'', ''9'']]) ! 0)) = 3
   \<and> checked_elsewhere 0 (example_page ''/items/'' [[''7'', ''8'', ''9'']]) = []"
  by code_simp

theorem select_all_sets_rows_witness:
  "length (document_checked_rows
      (click_checkbox 0 selectAll_path (example_page ''/items/'' [[''7'', ''8'', ''9'']]))) = 3
   \<and> map selected_count (batch_controls
        (click_checkbox 0 selectAll_path (example_page ''/items/'' [[''7'', ''8'', ''9'']])))
       = [Some 3]
   \<and> map is_hidden (batch_controls
        (click_checkbox 0 selectAll_path (example_page ''/items/'' [[''7'', ''8'', ''9'']])))
       = [False]"
proof -
  let ?p' = "click_checkbox 0 selectAll_path (example_page ''/items/'' [[''7'', ''8'', ''9'']])"
  note t = select_all_sets_rows [OF example_page_tables example_page_augmented example_header]
  have u: "\<not> cb_checked (addEventListener SelectAllChange selectAllCheckbox)"
    by (simp add: addEventListener_def selectAllCheckbox_def)
  have n: "length (document_checked_rows ?p') = 3"
    using t example_three_rows u by simp
  have "all_badged (example_page ''/items/'' [[''7'', ''8'', ''9'']]) \<and>
        0 < length (document_checked_rows ?p') \<longrightarrow>
        (\<forall>a \<in> set (batch_controls ?p').
           \<not> is_hidden a \<and> selected_count a = Some (length (document_checked_rows ?p')))"
    using t by blast
  then have all: "\<forall>a \<in> set (batch_controls ?p'). \<not> is_hidden a \<and> selected_count a = Some 3"
    unfolding n using example_page_badged by simp
  have "length (batch_controls ?p') = 1"
    by code_simp
  then obtain a where a: "batch_controls ?p' = [a]"
    by (cases "batch_controls ?p'") auto
  show ?thesis
    using n all unfolding a by simp
qed

text \<open>
  C5 as stated fails in three ways. On a page with one table of two rows, checking and
  then unchecking the select-all checkbox leaves both rows unchecked and the control
  hidden, but the badge still holds 2, not 0. On a page with two tables where one row of
  the first table is checked, checking the select-all checkbox of the second table, which
  has two rows, makes the badge show 3, not 2. And on a page whose markup holds a
  \<^verbatim>\<open>.batch-actions\<close> element without a badge before the injected control, checking
  the select-all checkbox of the two-row table checks both rows, but the loop throws at
  the element without a badge: the injected control stays hidden and its badge holds 0.
\<close>

theorem select_all_badge_counterexample:
  "map cb_checked (select_rows (tables
      (click_checkbox 0 selectAll_path (click_checkbox 0 selectAll_path
         (example_page ''/items/'' [[''7'', ''8'']]))) ! 0)) = [False, False]
   \<and> map is_hidden (batch_controls
      (click_checkbox 0 selectAll_path (click_checkbox 0 selectAll_path
         (example_page ''/items/'' [[''7'', ''8'']])))) = [True]
   \<and> map selected_count (batch_controls
      (click_checkbox 0 selectAll_path (click_checkbox 0 selectAll_path
         (example_page ''/items/'' [[''7'', ''8'']])))) = [Some 2]
   \<and> map cb_checked (select_rows (tables
      (click_checkbox 1 selectAll_path (click_checkbox 0 (row_box 0)
         (example_page ''/items/'' [[''1''], [''2'', ''3'']]))) ! 1)) = [True, True]
   \<and> map selected_count (batch_controls
      (click_checkbox 1 selectAll_path (click_checkbox 0 (row_box 0)
         (example_page ''/items/'' [[''1''], [''2'', ''3'']])))) = [Some 3]
   \<and> map cb_checked (select_rows (tables
      (click_checkbox 0 selectAll_path (foreign_page ''/items/'' [[''7'', ''8'']])) ! 0))
       = [True, True]
   \<and> map is_hidden (batch_controls
      (click_checkbox 0 selectAll_path (foreign_page ''/items/'' [[''7'', ''8'']])))
       = [False, True]
   \<and> map selected_count (batch_controls
      (click_checkbox 0 selectAll_path (foreign_page ''/items/'' [[''7'', ''8'']])))
       = [None, Some 0]"
  by code_simp

text \<open>The select-all checkbox is also in step with the rows after a click on itself, when
  the table has a row checkbox; here a throw of \<^verbatim>\<open>updateBatchActionButtons\<close> comes
  after the rows are written and changes nothing in the table.\<close>

lemma select_all_click_in_sync:
  assumes i: "i < length (tables p)" and a: "augmented (tables p ! i)"
    and h: "get_box (tables p ! i) selectAll_path = Some h"
    and n: "select_rows (tables p ! i) \<noteq> []"
  shows "header_in_sync (tables (click_checkbox i selectAll_path p) ! i)"
proof -
  define v where "v = (\<not> cb_checked h)"
  define t1 where "t1 = map_box selectAll_path toggle (tables p ! i)"
  define t2 where "t2 = forEach_select_row (\<lambda>checkbox. checkbox\<lparr>cb_checked := v\<rparr>) t1"
  have "click_checkbox i selectAll_path p
        = snd (updateBatchActionButtons (p\<lparr>tables := (tables p)[i := t2]\<rparr>))"
    unfolding t2_def t1_def v_def using i a h by (rule click_select_all_unfold)
  then have ti: "tables (click_checkbox i selectAll_path p) ! i = t2"
    using i by simp
  from a h have nr: "\<not> is_select_row h"
    by (auto simp: augmented_def not_select_row_selectAll)
  then have nr': "\<not> is_select_row (toggle h)"
    by (simp add: is_select_row_def toggle_def)
  have "get_box t1 selectAll_path = Some (toggle h)"
    unfolding t1_def using h by (rule get_box_map_box_same)
  then have header: "get_box t2 selectAll_path = Some (toggle h)"
    unfolding t2_def using nr' by (rule get_box_forEach_other)
  have "select_rows t1 = select_rows (tables p ! i)"
    unfolding t1_def using h nr nr' by (rule select_rows_map_box)
  moreover have "select_rows t2 = map (\<lambda>b. b\<lparr>cb_checked := v\<rparr>) (select_rows t1)"
    unfolding t2_def by (rule select_rows_forEach) (simp add: is_select_row_def)
  ultimately have rows:
    "select_rows t2 = map (\<lambda>b. b\<lparr>cb_checked := v\<rparr>) (select_rows (tables p ! i))"
    by simp
  have total: "length (select_rows t2) = length (select_rows (tables p ! i))"
    by (simp add: rows)
  have checked: "length (checked_select_rows t2)
                 = (if v then length (select_rows (tables p ! i)) else 0)"
    unfolding checked_select_rows_def rows by (rule checked_after_set)
  have "0 < length (select_rows (tables p ! i))"
    using n by simp
  then show ?thesis
    unfolding ti header_in_sync_def header total checked
    by (simp add: toggle_def v_def)
qed

section \<open>Clicks on an augmented table\<close>

lemma header_after_toggle:
  assumes "augmented t"
  obtains h1 where "get_box (map_box this toggle t) selectAll_path = Some h1"
    "cb_classes h1 = [''form-check-input'', ''select-all'']" "cb_listeners h1 = [SelectAllChange]"
    "\<not> is_select_row h1"
proof -
  from assms obtain h where h: "get_box t selectAll_path = Some h"
    "cb_classes h = [''form-check-input'', ''select-all'']" "cb_listeners h = [SelectAllChange]"
    by (rule augmented_header)
  show ?thesis
  proof (cases "this = selectAll_path")
    case True
    then have "get_box (map_box this toggle t) selectAll_path = Some (toggle h)"
      using h(1) by (simp add: get_box_map_box_same)
    moreover have "cb_classes (toggle h) = [''form-check-input'', ''select-all'']"
      "cb_listeners (toggle h) = [SelectAllChange]"
      using h(2,3) by (simp_all add: toggle_def)
    ultimately show ?thesis
      using that not_select_row_selectAll by blast
  next
    case False
    then have "get_box (map_box this toggle t) selectAll_path = Some h"
      using h(1) by (simp add: get_box_map_box_other)
    then show ?thesis
      using that h(2,3) not_select_row_selectAll by blast
  qed
qed

lemma document_checked_rows_same:
  assumes "i < length (tables p)" "checked_select_rows t' = checked_select_rows (tables p ! i)"
  shows "document_checked_rows (p\<lparr>tables := (tables p)[i := t']\<rparr>) = document_checked_rows p"
proof -
  have "map checked_select_rows ((tables p)[i := t']) = map checked_select_rows (tables p)"
    using assms by (simp add: list_eq_iff_nth_eq nth_list_update)
  then show ?thesis
    by (simp add: document_checked_rows_def)
qed

text \<open>On a page where every control has its badge, \<^verbatim>\<open>updateBatchActionButtons\<close> makes
  every control show the number of checked row checkboxes of the document, or hides it
  when there is none.\<close>

lemma update_shows:
  assumes "all_badged p"
  shows "\<forall>a \<in> set (batch_controls (snd (updateBatchActionButtons p))).
           if 0 < length (document_checked_rows p)
           then \<not> is_hidden a \<and> selected_count a = Some (length (document_checked_rows p))
           else is_hidden a"
proof (cases "0 < length (document_checked_rows p)")
  case True
  then show ?thesis
    using update_badges [OF assms True] by simp
next
  case False
  then have "length (document_checked_rows p) = 0"
    by simp
  then show ?thesis
    using update_badges_zero(2) by simp
qed

text \<open>A click on a checkbox that carries one of the two listeners, in an augmented table
  of a page where every control has its badge: afterwards every control shows the number
  of checked row checkboxes of the document as the click left it.\<close>

lemma click_badges:
  assumes i: "i < length (tables p)" and a: "augmented (tables p ! i)"
    and b: "get_box (tables p ! i) this = Some box" and l: "cb_listeners box = [l]"
    and g: "all_badged p"
  shows "\<forall>a \<in> set (batch_controls (click_checkbox i this p)).
           if 0 < length (document_checked_rows (click_checkbox i this p))
           then \<not> is_hidden a \<and>
                selected_count a = Some (length (document_checked_rows (click_checkbox i this p)))
           else is_hidden a"
proof -
  let ?t1 = "map_box this toggle (tables p ! i)"
  let ?q = "p\<lparr>tables := (tables p)[i := ?t1]\<rparr>"
  have click: "click_checkbox i this p = snd (run_listener i this ?q l)"
    using i b l by (rule click_single_listener)
  have gq: "all_badged ?q"
    using g by simp
  have ti: "tables ?q ! i = ?t1" and iq: "i < length (tables ?q)"
    using i by simp_all
  show ?thesis
  proof (cases l)
    case SelectAllChange
    obtain bx where bx: "get_box (tables ?q ! i) this = Some bx"
      using i b by (auto simp: get_box_map_box_same)
    define q2 where "q2 = ?q\<lparr>tables := (tables ?q)
        [i := forEach_select_row (\<lambda>checkbox. checkbox\<lparr>cb_checked := cb_checked bx\<rparr>)
                (tables ?q ! i)]\<rparr>"
    have c: "click_checkbox i this p = snd (updateBatchActionButtons q2)"
      unfolding click q2_def using SelectAllChange bx
      by (simp add: select_all_changed_def Let_def)
    have "all_badged q2"
      unfolding q2_def using gq by simp
    then show ?thesis
      unfolding c using update_shows [of q2] by simp
  next
    case SelectRowChange
    from a obtain h1 where h1: "get_box ?t1 selectAll_path = Some h1" "\<not> is_select_row h1"
      by (rule header_after_toggle)
    obtain q' where u: "updateBatchActionButtons ?q = (None, q')"
      using update_no_throw [OF gq] by (cases "updateBatchActionButtons ?q") auto
    have q': "q' = snd (updateBatchActionButtons ?q)"
      by (simp add: u)
    have tq': "tables q' = tables ?q"
      unfolding q' by simp
    define n where "n = length (select_rows ?t1)"
    define c where "c = length (checked_select_rows ?t1)"
    define f where "f = (\<lambda>b::checkbox. b\<lparr>cb_checked := (n = c), cb_indeterminate := (c > 0 \<and> c < n)\<rparr>)"
    have f: "cb_classes (f h1) = cb_classes h1"
      by (simp add: f_def)
    have c: "click_checkbox i this p = q'\<lparr>tables := (tables q')[i := map_box selectAll_path f ?t1]\<rparr>"
      unfolding click using SelectRowChange u tq' ti
      by (simp add: select_row_changed_def Let_def f_def n_def c_def)
    have "\<not> is_select_row (f h1)"
      using h1(2) f by (simp add: is_select_row_def)
    then have "select_rows (map_box selectAll_path f ?t1) = select_rows ?t1"
      using h1 by (intro select_rows_map_box)
    then have "checked_select_rows (map_box selectAll_path f ?t1) = checked_select_rows (tables q' ! i)"
      using tq' ti by (simp add: checked_select_rows_def)
    moreover have "i < length (tables q')"
      using tq' iq by simp
    ultimately have "document_checked_rows (click_checkbox i this p) = document_checked_rows q'"
      unfolding c by (rule document_checked_rows_same [rotated])
    then have n: "document_checked_rows (click_checkbox i this p) = document_checked_rows ?q"
      unfolding q' by simp
    have "batch_controls (click_checkbox i this p)
          = batch_controls (snd (updateBatchActionButtons ?q))"
      unfolding c q' by (simp add: batch_controls_def)
    then show ?thesis
      unfolding n using update_shows [OF gq] by simp
  qed
qed

section \<open>Independence of tables\<close>

lemma run_listener_tables:
  "\<exists>x. tables (snd (run_listener i this p l)) = (tables p)[i := x]"
proof (cases l)
  case SelectAllChange
  show ?thesis
  proof (cases "get_box (tables p ! i) this")
    case None
    then have "tables (snd (run_listener i this p l)) = (tables p)[i := tables p ! i]"
      using SelectAllChange by (simp add: select_all_changed_def)
    then show ?thesis ..
  next
    case (Some box)
    then show ?thesis
      using SelectAllChange by (auto simp: select_all_changed_def Let_def)
  qed
next
  case SelectRowChange
  obtain e p' where u: "updateBatchActionButtons p = (e, p')"
    by (cases "updateBatchActionButtons p") auto
  then have tp: "tables p' = tables p"
    using tables_updateBatchActionButtons [of p] by simp
  show ?thesis
  proof (cases e)
    case None
    then show ?thesis
      using SelectRowChange u tp by (auto simp: select_row_changed_def Let_def)
  next
    case (Some err)
    then have "tables (snd (run_listener i this p l)) = (tables p)[i := tables p ! i]"
      using SelectRowChange u tp by (simp add: select_row_changed_def)
    then show ?thesis ..
  qed
qed

lemma run_listeners_tables:
  "\<exists>x. tables (foldl (\<lambda>p l. snd (run_listener i this p l)) p ls) = (tables p)[i := x]"
proof (induction ls arbitrary: p)
  case Nil
  have "tables p = (tables p)[i := tables p ! i]"
    by simp
  then show ?case
    by (metis foldl_Nil)
next
  case (Cons l ls)
  let ?step = "\<lambda>p l. snd (run_listener i this p l)"
  obtain x where x: "tables (?step p l) = (tables p)[i := x]"
    using run_listener_tables by blast
  obtain y where "tables (foldl ?step (?step p l) ls) = (tables (?step p l))[i := y]"
    using Cons.IH by blast
  then have "tables (foldl ?step p (l # ls)) = (tables p)[i := y]"
    by (simp add: x)
  then show ?case ..
qed

lemma click_tables: "\<exists>x. tables (click_checkbox i this p) = (tables p)[i := x]"
proof (cases "i < length (tables p)")
  case False
  then have "tables (click_checkbox i this p) = (tables p)[i := tables p ! i]"
    by (simp add: click_checkbox_def)
  then show ?thesis ..
next
  case True
  show ?thesis
  proof (cases "get_box (tables p ! i) this")
    case None
    then have "tables (click_checkbox i this p) = (tables p)[i := tables p ! i]"
      using True by (simp add: click_checkbox_def)
    then show ?thesis ..
  next
    case (Some box)
    let ?q = "p\<lparr>tables := (tables p)[i := map_box this toggle (tables p ! i)]\<rparr>"
    obtain y where "tables (foldl (\<lambda>p l. snd (run_listener i this p l)) ?q (cb_listeners box))
                    = (tables ?q)[i := y]"
      using run_listeners_tables by blast
    then have "tables (click_checkbox i this p) = (tables p)[i := y]"
      using True Some by (simp add: click_checkbox_def)
    then show ?thesis ..
  qed
qed

lemma length_concat_sum: "length (concat (map f xs)) = sum_list (map (\<lambda>x. length (f x)) xs)"
  by (induction xs) simp_all

lemma document_count_sum:
  "length (document_checked_rows p)
   = sum_list (map (\<lambda>t. length (checked_select_rows t)) (tables p))"
  unfolding document_checked_rows_def by (rule length_concat_sum)

text \<open>
  C9, as the code has it: a click on a checkbox of one table, with the listeners it runs,
  leaves every other table of the page exactly as it was, checkboxes included, and the
  number of tables too. The badge and the dispatch are not per table. On a page where
  every \<^verbatim>\<open>.batch-actions\<close> element has its \<^verbatim>\<open>.selected-count\<close> badge, when
  \<^verbatim>\<open>updateBatchActionButtons\<close> has run, and so after a click on a checkbox that carries
  its change listener in an augmented table, with \<open>s\<close> the number of checked row
  checkboxes summed over all tables of the page: when \<open>s\<close> is positive every control is
  visible and its badge shows \<open>s\<close>, when \<open>s\<close> is 0 every control is hidden. And
  \<^verbatim>\<open>handleBatchAction\<close> collects the identifiers of the checked rows of all tables,
  table after table.
\<close>

theorem tables_are_independent:
  "(j \<noteq> i \<longrightarrow> tables (click_checkbox i this p) ! j = tables p ! j)
   \<and> length (tables (click_checkbox i this p)) = length (tables p)
   \<and> (all_badged p \<longrightarrow>
        (\<forall>a \<in> set (batch_controls (snd (updateBatchActionButtons p))).
           if 0 < sum_list (map (\<lambda>t. length (checked_select_rows t)) (tables p))
           then \<not> is_hidden a \<and>
                selected_count a
                  = Some (sum_list (map (\<lambda>t. length (checked_select_rows t)) (tables p)))
           else is_hidden a))
   \<and> (all_badged p \<and> i < length (tables p) \<and> augmented (tables p ! i) \<and>
       get_box (tables p ! i) this = Some box \<and> cb_listeners box = [l] \<longrightarrow>
        (\<forall>a \<in> set (batch_controls (click_checkbox i this p)).
           if 0 < sum_list (map (\<lambda>t. length (checked_select_rows t))
                              (tables (click_checkbox i this p)))
           then \<not> is_hidden a \<and>
                selected_count a
                  = Some (sum_list (map (\<lambda>t. length (checked_select_rows t))
                                      (tables (click_checkbox i this p))))
           else is_hidden a))
   \<and> selectedIds p = concat (map table_selected_ids (tables p))"
proof -
  obtain x where x: "tables (click_checkbox i this p) = (tables p)[i := x]"
    using click_tables by blast
  have frame: "j \<noteq> i \<longrightarrow> tables (click_checkbox i this p) ! j = tables p ! j"
    by (simp add: x)
  have len: "length (tables (click_checkbox i this p)) = length (tables p)"
    by (simp add: x)
  have badge: "all_badged p \<longrightarrow>
        (\<forall>a \<in> set (batch_controls (snd (updateBatchActionButtons p))).
           if 0 < sum_list (map (\<lambda>t. length (checked_select_rows t)) (tables p))
           then \<not> is_hidden a \<and>
                selected_count a
                  = Some (sum_list (map (\<lambda>t. length (checked_select_rows t)) (tables p)))
           else is_hidden a)"
    using update_shows [of p] unfolding document_count_sum by blast
  have click: "all_badged p \<and> i < length (tables p) \<and> augmented (tables p ! i) \<and>
       get_box (tables p ! i) this = Some box \<and> cb_listeners box = [l] \<longrightarrow>
        (\<forall>a \<in> set (batch_controls (click_checkbox i this p)).
           if 0 < sum_list (map (\<lambda>t. length (checked_select_rows t))
                              (tables (click_checkbox i this p)))
           then \<not> is_hidden a \<and>
                selected_count a
                  = Some (sum_list (map (\<lambda>t. length (checked_select_rows t))
                                      (tables (click_checkbox i this p))))
           else is_hidden a)"
    using click_badges [of i p this box l] unfolding document_count_sum by blast
  show ?thesis
    using frame len badge click selectedIds_by_table by blast
qed

lemma example_two_tables:
  "length (tables (example_page ''/items/'' [[''1''], [''2'', ''3'']])) = 2
   \<and> all_badged (example_page ''/items/'' [[''1''], [''2'', ''3'']])
   \<and> augmented (tables (example_page ''/items/'' [[''1''], [''2'', ''3'']]) ! 0)
   \<and> get_box (tables (example_page ''/items/'' [[''1''], [''2'', ''3'']]) ! 0) (row_box 0)
       = Some (addEventListener SelectRowChange rowCheckbox)
   \<and> cb_listeners (addEventListener SelectRowChange rowCheckbox) = [SelectRowChange]"
  by code_simp

lemma example_two_tables_clicked:
  "sum_list (map (\<lambda>t. length (checked_select_rows t))
      (tables (click_checkbox 0 (row_box 0)
         (example_page ''/items/'' [[''1''], [''2'', ''3'']])))) = 1
   \<and> length (batch_controls (click_checkbox 0 (row_box 0)
         (example_page ''/items/'' [[''1''], [''2'', ''3'']]))) = 1"
  by code_simp

theorem tables_are_independent_witness:
  "tables (click_checkbox 0 (row_box 0) (example_page ''/items/'' [[''1''], [''2'', ''3'']])) ! 1
     = tables (example_page ''/items/'' [[''1''], [''2'', ''3'']]) ! 1
   \<and> length (tables (click_checkbox 0 (row_box 0)
        (example_page ''/items/'' [[''1''], [''2'', ''3'']]))) = 2
   \<and> map selected_count (batch_controls (click_checkbox 0 (row_box 0)
        (example_page ''/items/'' [[''1''], [''2'', ''3'']]))) = [Some 1]
   \<and> map is_hidden (batch_controls (click_checkbox 0 (row_box 0)
        (example_page ''/items/'' [[''1''], [''2'', ''3'']]))) = [False]"
proof -
  let ?p = "example_page ''/items/'' [[''1''], [''2'', ''3'']]"
  let ?p' = "click_checkbox 0 (row_box 0) ?p"
  note t = tables_are_independent
             [of 1 0 "row_box 0" ?p "addEventListener SelectRowChange rowCheckbox" SelectRowChange]
  have frame: "tables ?p' ! 1 = tables ?p ! 1" and len: "length (tables ?p') = 2"
    using t example_two_tables by simp_all
  have "\<forall>a \<in> set (batch_controls ?p').
          if 0 < sum_list (map (\<lambda>t. length (checked_select_rows t)) (tables ?p'))
          then \<not> is_hidden a \<and>
               selected_count a
                 = Some (sum_list (map (\<lambda>t. length (checked_select_rows t)) (tables ?p')))
          else is_hidden a"
    using t example_two_tables by simp
  then have all: "\<forall>a \<in> set (batch_controls ?p'). \<not> is_hidden a \<and> selected_count a = Some 1"
    using example_two_tables_clicked by simp
  obtain a where a: "batch_controls ?p' = [a]"
    using example_two_tables_clicked by (cases "batch_controls ?p'") auto
  show ?thesis
    using frame len all unfolding a by simp
qed

text \<open>
  C9 as stated fails: take a page with two tables of one row each, once with the row of
  the second table unchecked and once with it checked. The same click on the row of the
  first table leaves the first table in the same state on both pages, yet the badge shows
  1 on one and 2 on the other, and the delete action collects one identifier on one and
  both identifiers on the other.
\<close>

theorem tables_share_badge_counterexample:
  "tables (click_checkbox 0 (row_box 0) (example_page ''/items/'' [[''1''], [''2'']])) ! 0
     = tables (click_checkbox 0 (row_box 0)
         (click_checkbox 1 (row_box 0) (example_page ''/items/'' [[''1''], [''2'']]))) ! 0
   \<and> map selected_count (batch_controls
        (click_checkbox 0 (row_box 0) (example_page ''/items/'' [[''1''], [''2'']]))) = [Some 1]
   \<and> map selected_count (batch_controls
        (click_checkbox 0 (row_box 0)
           (click_checkbox 1 (row_box 0) (example_page ''/items/'' [[''1''], [''2'']]))))
       = [Some 2]
   \<and> handleBatchAction
        (click_checkbox 0 (row_box 0) (example_page ''/items/'' [[''1''], [''2'']]))
        ''deleteSelected'' = ConfirmDeleteDialog [''1'']
   \<and> handleBatchAction
        (click_checkbox 0 (row_box 0)
           (click_checkbox 1 (row_box 0) (example_page ''/items/'' [[''1''], [''2'']])))
        ''deleteSelected'' = ConfirmDeleteDialog [''1'', ''2'']"
  by code_simp

section \<open>Reachable states\<close>

text \<open>A freshly augmented table whose cells held no row checkbox has one row checkbox for
  each body row, all unchecked.\<close>

lemma no_select_rows_parts:
  assumes "select_rows t = []"
  shows "filter is_select_row (concat (map row_boxes (thead t))) = []"
    and "filter is_select_row (concat (map row_boxes (tbody t))) = []"
  using assms by (simp_all add: select_rows_def table_rows_def)

lemma select_rows_insert_selectCell:
  assumes "filter is_select_row (concat (map row_boxes rs)) = []"
  shows "filter is_select_row (concat (map row_boxes (map (insertFirst selectCell) rs)))
         = replicate (length rs) rowCheckbox"
  using assms
proof (induction rs)
  case Nil
  then show ?case by simp
next
  case (Cons r rs)
  then show ?case
    by (simp add: row_boxes_def insertFirst_def selectCell_def is_select_row_def
        rowCheckbox_def)
qed

lemma setup_table_rows:
  assumes "\<not> hasCheckboxColumn t" "thead t \<noteq> []" "select_rows t = []"
  shows "select_rows (setupBatchSelection_table t)
         = replicate (length (tbody t)) (addEventListener SelectRowChange rowCheckbox)"
proof -
  obtain headerRow others where h: "thead t = headerRow # others"
    using assms(2) by (cases "thead t") auto
  let ?hd = "selectAllHeader\<lparr>cell_boxes := [addEventListener SelectAllChange selectAllCheckbox]\<rparr>"
  let ?t = "t\<lparr>thead := insertFirst ?hd headerRow # others,
              tbody := map (insertFirst selectCell) (tbody t)\<rparr>"
  have "filter is_select_row (concat (map row_boxes (headerRow # others))) = []"
    using no_select_rows_parts(1) [OF assms(3)] h by simp
  then have head: "filter is_select_row (concat (map row_boxes (insertFirst ?hd headerRow # others)))
              = []"
    by (simp add: row_boxes_def insertFirst_def is_select_row_def addEventListener_def
        selectAllCheckbox_def)
  have body: "filter is_select_row (concat (map row_boxes (map (insertFirst selectCell) (tbody t))))
              = replicate (length (tbody t)) rowCheckbox"
    using no_select_rows_parts(2) [OF assms(3)] by (rule select_rows_insert_selectCell)
  have "select_rows ?t = replicate (length (tbody t)) rowCheckbox"
    using head body by (simp add: select_rows_def table_rows_def)
  moreover have "select_rows (forEach_select_row (addEventListener SelectRowChange) ?t)
                 = map (addEventListener SelectRowChange) (select_rows ?t)"
    by (rule select_rows_forEach) (simp add: is_select_row_def addEventListener_def)
  ultimately show ?thesis
    unfolding setup_table_unfold [OF assms(1) h] by simp
qed

text \<open>The controls that the script injects have their badge, and neither the setup nor a
  click takes a badge away.\<close>

lemma setup_keeps_badges:
  assumes "all_badged p"
  shows "all_badged (snd (setupBatchActionButtons p))"
proof -
  let ?q = "p\<lparr>containers :=
           map (\<lambda>container. if container = [] then container @ [batchActionsDiv (pathname p)]
                            else container)
               (containers p)\<rparr>"
  have "all_badged ?q"
    using assms
    by (auto simp: all_badged_def batch_controls_def list_all_iff batchActionsDiv_def
        split: if_splits)
  then show ?thesis
    unfolding setupBatchActionButtons_def by (rule update_keeps_badges)
qed

lemma run_listener_keeps_badges:
  assumes "all_badged p"
  shows "all_badged (snd (run_listener i this p l))"
proof (cases l)
  case SelectAllChange
  show ?thesis
  proof (cases "get_box (tables p ! i) this")
    case None
    then show ?thesis
      using SelectAllChange assms by (simp add: select_all_changed_def)
  next
    case (Some box)
    then show ?thesis
      using SelectAllChange assms
      by (simp add: select_all_changed_def Let_def update_keeps_badges)
  qed
next
  case SelectRowChange
  obtain e p' where u: "updateBatchActionButtons p = (e, p')"
    by (cases "updateBatchActionButtons p") auto
  then have "all_badged p'"
    using update_keeps_badges [OF assms] by simp
  then show ?thesis
    using SelectRowChange u by (cases e) (simp_all add: select_row_changed_def Let_def)
qed

lemma click_keeps_badges:
  assumes "all_badged p"
  shows "all_badged (click_checkbox i this p)"
proof -
  have fold: "all_badged (foldl (\<lambda>p l. snd (run_listener i this p l)) q ls)"
    if "all_badged q" for q ls
    using that by (induction ls arbitrary: q) (simp_all add: run_listener_keeps_badges)
  show ?thesis
    using assms by (auto simp: click_checkbox_def fold split: option.splits)
qed

text \<open>A click on a checkbox that carries one of the two listeners keeps the table
  augmented, so the properties of the listeners hold after any number of clicks.\<close>

lemma click_keeps_augmented:
  assumes i: "i < length (tables p)" and a: "augmented (tables p ! i)"
    and b: "get_box (tables p ! i) this = Some box"
    and l: "cb_listeners box = [l]"
  shows "augmented (tables (click_checkbox i this p) ! i)"
proof -
  from a have m: "hasCheckboxColumn (tables p ! i)"
    by (simp add: augmented_def)
  let ?t1 = "map_box this toggle (tables p ! i)"
  let ?q = "p\<lparr>tables := (tables p)[i := ?t1]\<rparr>"
  have m1: "hasCheckboxColumn ?t1"
    using m by (simp add: hasCheckboxColumn_map_box)
  from a obtain h1 where h1: "get_box ?t1 selectAll_path = Some h1"
    "cb_classes h1 = [''form-check-input'', ''select-all'']" "cb_listeners h1 = [SelectAllChange]"
    "\<not> is_select_row h1"
    by (rule header_after_toggle)
  obtain x where x: "tables (click_checkbox i this p) = (tables p)[i := x]"
    using click_tables by blast
  have click: "click_checkbox i this p = snd (run_listener i this ?q l)"
    using i b l by (rule click_single_listener)
  show ?thesis
  proof (cases l)
    case SelectAllChange
    obtain bx where bx: "get_box (tables ?q ! i) this = Some bx"
      using i b by (auto simp: get_box_map_box_same)
    let ?t2 = "forEach_select_row (\<lambda>checkbox. checkbox\<lparr>cb_checked := cb_checked bx\<rparr>) ?t1"
    have "tables (click_checkbox i this p) ! i = ?t2"
      unfolding click using SelectAllChange bx i
      by (simp add: select_all_changed_def Let_def)
    moreover have "hasCheckboxColumn ?t2"
      using m1 by (simp add: forEach_select_row_def hasCheckboxColumn_map_boxes)
    moreover have "get_box ?t2 selectAll_path = Some h1"
      using h1(1,4) by (rule get_box_forEach_other)
    ultimately show ?thesis
      using h1(2,3) by (simp add: augmented_def)
  next
    case SelectRowChange
    obtain e q' where u: "updateBatchActionButtons ?q = (e, q')"
      by (cases "updateBatchActionButtons ?q") auto
    then have tq: "tables q' = tables ?q"
      using tables_updateBatchActionButtons [of ?q] by simp
    show ?thesis
    proof (cases e)
      case (Some err)
      then have "tables (click_checkbox i this p) ! i = ?t1"
        unfolding click using SelectRowChange u tq i by (simp add: select_row_changed_def)
      then show ?thesis
        using m1 h1(1,2,3) by (simp add: augmented_def)
    next
      case None
      define n where "n = length (select_rows ?t1)"
      define c where "c = length (checked_select_rows ?t1)"
      define f where
        "f = (\<lambda>b::checkbox. b\<lparr>cb_checked := (n = c), cb_indeterminate := (c > 0 \<and> c < n)\<rparr>)"
      have "tables (click_checkbox i this p) ! i = map_box selectAll_path f ?t1"
        unfolding click using SelectRowChange u tq i None
        by (simp add: select_row_changed_def Let_def f_def n_def c_def)
      moreover have "hasCheckboxColumn (map_box selectAll_path f ?t1)"
        using m1 by (simp add: hasCheckboxColumn_map_box)
      moreover have "get_box (map_box selectAll_path f ?t1) selectAll_path = Some (f h1)"
        using h1(1) by (rule get_box_map_box_same)
      moreover have "cb_classes (f h1) = cb_classes h1" "cb_listeners (f h1) = cb_listeners h1"
        by (simp_all add: f_def)
      ultimately show ?thesis
        using h1(2,3) by (simp add: augmented_def)
    qed
  qed
qed

end
